theory Spec2Isabelle
  imports Complex_Main "HOL-Library.Word" "HOL-Library.Sublist" "HOL-Library.Multiset"
begin

unbundle bit_operations_syntax

section \<open>Text\<close>

text \<open>
  Python text is modelled as \<^typ>\<open>string\<close>, a list of 8-bit characters holding the UTF-8
  encoding of the text. The source tests text with \<^verbatim>\<open>pat in s\<close> against ASCII patterns
  only; a test for an ASCII pattern gives the same answer on the UTF-8 bytes as on the code
  points.
\<close>

definition contains :: "string \<Rightarrow> string \<Rightarrow> bool" where
  \<comment> \<open>\<^verbatim>\<open>pat in s\<close>\<close>
  "contains s pat = sublist pat s"

definition lower_char :: "char \<Rightarrow> char" where
  "lower_char c =
     (let n = (of_char c :: nat) in if 65 \<le> n \<and> n \<le> 90 then char_of (n + 32) else c)"

definition lower :: "string \<Rightarrow> string" where
  \<comment> \<open>\<^verbatim>\<open>str.lower()\<close> on the ASCII letters. Python also lowers letters beyond ASCII; of
      those only U+0130 and U+212A give an ASCII letter (an \<^verbatim>\<open>i\<close> followed by U+0307, and
      \<^verbatim>\<open>k\<close>), and neither can complete one of the patterns the router looks for.\<close>
  "lower s = map lower_char s"

section \<open>Exceptions\<close>

datatype exn_class =
  ImportError | TypeError | UnboundLocalError | IndexError | StructError | OtherException

datatype exn = Exn exn_class string

fun exn_class_of :: "exn \<Rightarrow> exn_class" where
  "exn_class_of (Exn c m) = c"

fun str_exn :: "exn \<Rightarrow> string" where
  \<comment> \<open>\<^verbatim>\<open>str(e)\<close>\<close>
  "str_exn (Exn c m) = m"

section \<open>Tool registry (polaris/tools/\_\_init\_\_.py)\<close>

subsection \<open>json.dumps of a text value\<close>

definition hex_digit :: "nat \<Rightarrow> char" where
  "hex_digit d = (if d < 10 then char_of (48 + d) else char_of (87 + d))"

definition hex4 :: "nat \<Rightarrow> string" where
  \<comment> \<open>\<^verbatim>\<open>'{0:04x}'.format(n)\<close> for \<^verbatim>\<open>n < 0x10000\<close>\<close>
  "hex4 n = [hex_digit (n div 4096 mod 16), hex_digit (n div 256 mod 16),
             hex_digit (n div 16 mod 16), hex_digit (n mod 16)]"

definition escape_codepoint :: "nat \<Rightarrow> string" where
  \<comment> \<open>the \<^verbatim>\<open>\uXXXX\<close> branch of \<^verbatim>\<open>py_encode_basestring_ascii\<close>, with surrogate pairs\<close>
  "escape_codepoint n =
     (if n < 0x10000 then [CHR 0x5C, CHR ''u''] @ hex4 n
      else let m = n - 0x10000 in
        [CHR 0x5C, CHR ''u''] @ hex4 (0xD800 + m div 1024 mod 1024) @
        [CHR 0x5C, CHR ''u''] @ hex4 (0xDC00 + m mod 1024))"

definition escape_ascii :: "char \<Rightarrow> string" where
  "escape_ascii c =
     (let n = (of_char c :: nat) in
      if n = 0x5C then [CHR 0x5C, CHR 0x5C]
      else if n = 0x22 then [CHR 0x5C, CHR 0x22]
      else if n = 8 then [CHR 0x5C, CHR ''b'']
      else if n = 12 then [CHR 0x5C, CHR ''f'']
      else if n = 10 then [CHR 0x5C, CHR ''n'']
      else if n = 13 then [CHR 0x5C, CHR ''r'']
      else if n = 9 then [CHR 0x5C, CHR ''t'']
      else if 0x20 \<le> n \<and> n \<le> 0x7E then [c]
      else escape_codepoint n)"

definition cont :: "char \<Rightarrow> nat" where
  \<comment> \<open>payload of a UTF-8 continuation byte\<close>
  "cont c = (of_char c :: nat) mod 64"

fun json_escape :: "string \<Rightarrow> string" where
  "json_escape [] = []"
| "json_escape (c # cs) =
     (let n = (of_char c :: nat) in
      if n < 0x80 then escape_ascii c @ json_escape cs
      else if 0xC0 \<le> n \<and> n < 0xE0 then
        (case cs of
           c2 # r \<Rightarrow> escape_codepoint ((n - 0xC0) * 64 + cont c2) @ json_escape r
         | _ \<Rightarrow> escape_codepoint n @ json_escape cs)
      else if 0xE0 \<le> n \<and> n < 0xF0 then
        (case cs of
           c2 # c3 # r \<Rightarrow>
             escape_codepoint ((n - 0xE0) * 4096 + cont c2 * 64 + cont c3) @ json_escape r
         | _ \<Rightarrow> escape_codepoint n @ json_escape cs)
      else if 0xF0 \<le> n \<and> n < 0xF8 then
        (case cs of
           c2 # c3 # c4 # r \<Rightarrow>
             escape_codepoint
               ((n - 0xF0) * 262144 + cont c2 * 4096 + cont c3 * 64 + cont c4) @ json_escape r
         | _ \<Rightarrow> escape_codepoint n @ json_escape cs)
      else escape_codepoint n @ json_escape cs)"

definition json_dumps_str :: "string \<Rightarrow> string" where
  \<comment> \<open>\<^verbatim>\<open>json.dumps(s)\<close> for a text \<^verbatim>\<open>s\<close> (\<^verbatim>\<open>ensure_ascii=True\<close>); a byte sequence that is
      not UTF-8 cannot be a Python text, and is escaped byte by byte here\<close>
  \<open>json_dumps_str s = [CHR 0x22] @ json_escape s @ [CHR 0x22]\<close>

definition json_dumps_error :: "string \<Rightarrow> string" where
  \<comment> \<open>\<^verbatim>\<open>json.dumps({"error": msg})\<close>\<close>
  \<open>json_dumps_error msg = ''{"error": '' @ json_dumps_str msg @ ''}''\<close>

subsection \<open>execute\_tool\<close>

text \<open>
  A handler is called with the keyword arguments \<^verbatim>\<open>args\<close> (type \<^typ>\<open>'a\<close>) in a world
  \<^typ>\<open>'w\<close> (mail box, cluster, network), which it may change. It returns a text or raises.
  Only exceptions that derive from \<^verbatim>\<open>Exception\<close> are modelled.
\<close>

type_synonym ('a, 'w) handler = "'a \<Rightarrow> 'w \<Rightarrow> (exn + string) \<times> 'w"

definition execute_tool ::
  "(string \<Rightarrow> ('a, 'w) handler option) \<Rightarrow> string \<Rightarrow> 'a \<Rightarrow> 'w \<Rightarrow> (exn + string) \<times> 'w" where
  "execute_tool HANDLERS name args w =
     (case HANDLERS name of
        None \<Rightarrow> (Inr (json_dumps_error (''Unknown tool: '' @ name)), w)
      | Some handler \<Rightarrow> handler args w)"

section \<open>Router (polaris/router.py)\<close>

subsection \<open>Tools, skills and the enforcement policy\<close>

record schema =
  schema_required :: "string list option"

record tool_def =
  t_name :: string
  t_description :: "string option"
  input_schema :: "schema option"

text \<open>
  A matched skill is a dictionary; the router reads four of its keys with \<^verbatim>\<open>get\<close>, so each
  may be absent (\<^const>\<open>None\<close>).
\<close>

record skill =
  skill_name :: string
  skill_requires_tool :: "bool option"
  skill_strict_mode :: "bool option"
  skill_tool_chain :: "string list option"
  skill_tools_required :: "string list option"

record enforcement =
  requires_tool :: bool
  strict_mode :: bool
  allowed_tools :: "string list"
  chain_tools :: "string list"
  preflight_tools :: "string list"

definition get_requires_tool :: "skill \<Rightarrow> bool" where
  \<comment> \<open>\<^verbatim>\<open>skill.get("requires_tool", False)\<close>\<close>
  "get_requires_tool s = (case skill_requires_tool s of None \<Rightarrow> False | Some b \<Rightarrow> b)"

definition get_strict_mode :: "skill \<Rightarrow> bool" where
  \<comment> \<open>\<^verbatim>\<open>skill.get("strict_mode", True)\<close>\<close>
  "get_strict_mode s = (case skill_strict_mode s of None \<Rightarrow> True | Some b \<Rightarrow> b)"

definition get_tool_chain :: "skill \<Rightarrow> string list" where
  \<comment> \<open>\<^verbatim>\<open>skill.get("tool_chain", []) or []\<close>\<close>
  "get_tool_chain s = (case skill_tool_chain s of None \<Rightarrow> [] | Some xs \<Rightarrow> xs)"

definition get_tools_required :: "skill \<Rightarrow> string list" where
  \<comment> \<open>\<^verbatim>\<open>skill.get("tools_required", []) or []\<close>\<close>
  "get_tools_required s = (case skill_tools_required s of None \<Rightarrow> [] | Some xs \<Rightarrow> xs)"

definition ordered :: "skill \<Rightarrow> string list" where
  \<comment> \<open>\<^verbatim>\<open>tool_chain if tool_chain else tools_required\<close>\<close>
  "ordered s = (if get_tool_chain s \<noteq> [] then get_tool_chain s else get_tools_required s)"

definition get_required :: "tool_def \<Rightarrow> string list" where
  \<comment> \<open>\<^verbatim>\<open>tool_def.get("input_schema", {}).get("required", [])\<close>\<close>
  "get_required t =
     (case input_schema t of
        None \<Rightarrow> []
      | Some sch \<Rightarrow> (case schema_required sch of None \<Rightarrow> [] | Some r \<Rightarrow> r))"

definition known_tools :: "tool_def list \<Rightarrow> string \<Rightarrow> tool_def option" where
  \<comment> \<open>\<^verbatim>\<open>{t["name"]: t for t in self.tools}\<close>: a later tool of the same name wins\<close>
  "known_tools ts = map_of (rev (map (\<lambda>t. (t_name t, t)) ts))"

definition append_new :: "'a \<Rightarrow> 'a list \<Rightarrow> 'a list" where
  \<comment> \<open>\<^verbatim>\<open>if x not in xs: xs.append(x)\<close>\<close>
  "append_new x xs = (if x \<in> set xs then xs else xs @ [x])"

fun enforce_names :: "(string \<Rightarrow> tool_def option) \<Rightarrow> string list \<Rightarrow> enforcement \<Rightarrow> enforcement" where
  \<comment> \<open>the inner loop \<^verbatim>\<open>for name in ordered\<close>\<close>
  "enforce_names known [] e = e"
| "enforce_names known (name # rest) e =
     (let e1 = e\<lparr>allowed_tools := append_new name (allowed_tools e),
                 chain_tools := append_new name (chain_tools e)\<rparr>;
          e2 = (case known name of
                  None \<Rightarrow> e1
                | Some tool_def \<Rightarrow>
                    if get_required tool_def = [] \<and> name \<notin> set (preflight_tools e1)
                    then e1\<lparr>preflight_tools := preflight_tools e1 @ [name]\<rparr>
                    else e1)
      in enforce_names known rest e2)"

fun enforce_skills :: "(string \<Rightarrow> tool_def option) \<Rightarrow> skill list \<Rightarrow> enforcement \<Rightarrow> enforcement" where
  \<comment> \<open>the outer loop \<^verbatim>\<open>for skill in matched_skills\<close>\<close>
  "enforce_skills known [] e = e"
| "enforce_skills known (s # ss) e =
     (if \<not> get_requires_tool s then enforce_skills known ss e
      else
        let e1 = e\<lparr>requires_tool := True, strict_mode := (strict_mode e \<or> get_strict_mode s)\<rparr>
        in enforce_skills known ss (enforce_names known (ordered s) e1))"

definition resolve_skill_enforcement :: "tool_def list \<Rightarrow> skill list \<Rightarrow> enforcement" where
  \<comment> \<open>\<^verbatim>\<open>PolarisRouter._resolve_skill_enforcement\<close>; the first argument is \<^verbatim>\<open>self.tools\<close>\<close>
  "resolve_skill_enforcement ts matched_skills =
     enforce_skills (known_tools ts) matched_skills
       \<lparr>requires_tool = False, strict_mode = False, allowed_tools = [], chain_tools = [],
        preflight_tools = []\<rparr>"

subsection \<open>The policy in the specification's words\<close>

definition spec_OR :: "bool list \<Rightarrow> bool" where
  "spec_OR bs = foldr (\<or>) bs False"

fun first_seen :: "'a list \<Rightarrow> 'a list" where
  "first_seen [] = []"
| "first_seen (x # xs) = x # first_seen (filter (\<lambda>y. y \<noteq> x) xs)"

definition spec_ordered_union :: "'a list list \<Rightarrow> 'a list" where
  "spec_ordered_union xss = first_seen (concat xss)"

definition advisory_skill :: skill where
  "advisory_skill =
     \<lparr>skill_name = ''notes'', skill_requires_tool = Some False, skill_strict_mode = Some True,
      skill_tool_chain = Some [''search_arxiv''], skill_tools_required = None\<rparr>"


subsection \<open>Tool selection and tool execution\<close>

definition get_tools_by_name :: "tool_def list \<Rightarrow> string list \<Rightarrow> tool_def list" where
  "get_tools_by_name ts tool_names = filter (\<lambda>tool. t_name tool \<in> set tool_names) ts"

definition select_relevant_tools ::
  "(string \<Rightarrow> string list option) \<Rightarrow> tool_def list \<Rightarrow> string \<Rightarrow> tool_def list" where
  "select_relevant_tools TOOL_KEYWORDS ts message =
     (if ts = [] then []
      else
        let msg_lower = lower message in
        filter
          (\<lambda>tool. \<exists>kw \<in> set (case TOOL_KEYWORDS (t_name tool) of None \<Rightarrow> [] | Some kws \<Rightarrow> kws).
             contains msg_lower kw)
          ts)"

definition looks_like_tool_error :: "string \<Rightarrow> bool" where
  \<comment> \<open>\<^verbatim>\<open>PolarisRouter._looks_like_tool_error\<close>\<close>
  \<open>looks_like_tool_error result_text =
     (let lower_text = lower result_text in
      (contains lower_text (''tool '' @ [CHR 0x27]) \<and> contains lower_text ''failed'') \<or>
      contains lower_text ''"error"'' \<or>
      contains lower_text ([CHR 0x27] @ ''error'' @ [CHR 0x27]))\<close>

text \<open>
  The package \<^verbatim>\<open>polaris.tools\<close> as the router sees it: whether it can be imported, and its
  handler table.
\<close>

record ('a, 'w) tools_package =
  importable :: bool
  HANDLERS :: "string \<Rightarrow> ('a, 'w) handler option"

definition UNAVAILABLE_TEXT :: string where
  "UNAVAILABLE_TEXT = ''Tool execution unavailable (polaris.tools not loaded)''"

definition failed_text :: "string \<Rightarrow> exn \<Rightarrow> string" where
  \<comment> \<open>\<^verbatim>\<open>f"Tool '{name}' failed: {e}"\<close>\<close>
  "failed_text name e = ''Tool '' @ [CHR 0x27] @ name @ [CHR 0x27] @ '' failed: '' @ str_exn e"

definition router_execute_tool ::
  "('a, 'w) tools_package \<Rightarrow> string \<Rightarrow> 'a \<Rightarrow> 'w \<Rightarrow> string \<times> 'w" where
  \<comment> \<open>\<^verbatim>\<open>PolarisRouter._execute_tool\<close>; \<^verbatim>\<open>except ImportError\<close> comes first and also catches
      an \<^verbatim>\<open>ImportError\<close> raised by a handler\<close>
  "router_execute_tool pkg name args w =
     (if \<not> importable pkg then (UNAVAILABLE_TEXT, w)
      else
        (case execute_tool (HANDLERS pkg) name args w of
           (Inr result, w') \<Rightarrow> (result, w')
         | (Inl e, w') \<Rightarrow>
             if exn_class_of e = ImportError then (UNAVAILABLE_TEXT, w')
             else (failed_text name e, w')))"

subsection \<open>The OpenAI-compatible chat interface\<close>

record 'a tool_call =
  tc_id :: string
  tc_name :: string
  tc_arguments :: "'a option"
    \<comment> \<open>\<^verbatim>\<open>json.loads(tool_call.function.arguments)\<close>; \<^const>\<open>None\<close> when it raises
        \<^verbatim>\<open>JSONDecodeError\<close> or \<^verbatim>\<open>TypeError\<close>\<close>

record 'a chat_message =
  content :: "string option"
  tool_calls :: "'a tool_call list option"

record 'a choice =
  finish_reason :: string
  choice_message :: "'a chat_message"

datatype 'a message_item =
  SystemMessage string
| HistoryMessage string string
| UserMessage string
| AssistantMessage "'a chat_message"
| ToolMessage string string

record openai_function =
  fn_name :: string
  fn_description :: string
  fn_parameters :: schema

record 'a chat_request =
  rq_model :: string
  rq_messages :: "'a message_item list"
  rq_max_tokens :: nat
  rq_tools :: "openai_function list option"

datatype 'a chat_outcome =
  AuthenticationError
| APIError string
| ChatRaised exn
| ChatCompletion "'a choice list"

definition convert_tools_to_openai_format :: "tool_def list \<Rightarrow> openai_function list" where
  "convert_tools_to_openai_format anthropic_tools =
     map (\<lambda>tool.
            \<lparr>fn_name = t_name tool,
             fn_description = (case t_description tool of None \<Rightarrow> [] | Some d \<Rightarrow> d),
             fn_parameters =
               (case input_schema tool of None \<Rightarrow> \<lparr>schema_required = None\<rparr> | Some sch \<Rightarrow> sch)\<rparr>)
         anthropic_tools"

subsection \<open>The Anthropic interface\<close>

datatype 'a block = TextBlock string | ToolUseBlock string string 'a | OtherBlock

record 'a anthropic_response =
  stop_reason :: string
  blocks :: "'a block list"

datatype 'a anthropic_message =
  AHistory string string
| AUser string
| AAssistant "'a block list"
| AToolResults "(string \<times> string) list"

record 'a anthropic_request =
  ar_model :: string
  ar_max_tokens :: nat
  ar_system :: string
  ar_tools :: "tool_def list option"
  ar_messages :: "'a anthropic_message list"

datatype 'a anthropic_outcome =
  AnthropicAuthenticationError
| AnthropicAPIError string
| AnthropicRaised exn
| AnthropicResponse "'a anthropic_response"

subsection \<open>The router object\<close>

record preflight_item =
  pf_name :: string
  pf_content :: string
  pf_ok :: bool

record route_result =
  response :: string
  tools_used :: "string list"

text \<open>
  The router and what it holds or reaches: its settings, its tool definitions, the skill
  registry's \<^verbatim>\<open>match\<close> (\<^const>\<open>None\<close> when there is no registry), the two clients, and the tool
  package. The prompt text (\<^verbatim>\<open>_build_system_prompt\<close> and the blocks lines 575 to 594 add
  to it) reaches the run only through what the model replies, so it is a function
  \<open>prompt_text\<close> of the values it is built from; the bookkeeping after the model's answer
  (corrections, memory, facts; every call of it guarded by \<^verbatim>\<open>except Exception\<close>) changes the
  world only, and is the function \<open>after_turn\<close>. \<open>empty_dict\<close> is the value \<^verbatim>\<open>{}\<close>.
\<close>

record ('a, 'w) router =
  max_iterations :: int
  backend :: string
  allow_paid :: bool
  model :: string
  model_fast :: string
  model_full :: string
  tools :: "tool_def list"
  TOOL_KEYWORDS :: "string \<Rightarrow> string list option"
  skill_registry :: "(string \<Rightarrow> skill list) option"
  chat_completions_create :: "'w \<Rightarrow> 'a chat_request \<Rightarrow> 'a chat_outcome \<times> 'w"
  messages_create :: "'w \<Rightarrow> 'a anthropic_request \<Rightarrow> 'a anthropic_outcome \<times> 'w"
  polaris_tools :: "('a, 'w) tools_package"
  empty_dict :: 'a
  prompt_text :: "'w \<Rightarrow> string \<Rightarrow> bool \<Rightarrow> enforcement option \<Rightarrow> preflight_item list \<Rightarrow> string"
  after_turn :: "string \<Rightarrow> (string \<times> string) list \<Rightarrow> string \<Rightarrow> route_result \<Rightarrow> 'w \<Rightarrow> 'w"

definition NO_SKILL_TOOLS_TEXT :: string where
  \<comment> \<open>the Korean reply of lines 566 and 567, in UTF-8: the request needs a tool and no usable
      skill tool was found\<close>
  "NO_SKILL_TOOLS_TEXT =
     map char_of
       [
        236, 157, 180, 32, 236, 154, 148, 236, 178, 173, 236, 157, 128, 32, 235, 143, 132,
        234, 181, 172, 32, 236, 139, 164, 237, 150, 137, 236, 157, 180, 32, 237, 149, 132,
        236, 136, 152, 236, 157, 184, 235, 141, 176, 44, 32, 236, 130, 172, 236, 154, 169,
        32, 234, 176, 128, 235, 138, 165, 237, 149, 156, 32, 236, 138, 164, 237, 130, 172,
        32, 235, 143, 132, 234, 181, 172, 235, 165, 188, 32, 236, 176, 190, 236, 167, 128,
        32, 235, 170, 187, 237, 150, 136, 236, 150, 180, 46, 32, 236, 138, 164, 237, 130,
        172, 32, 236, 132, 164, 236, 160, 149, 40, 116, 111, 111, 108, 95, 99, 104, 97, 105,
        110, 47, 116, 111, 111, 108, 115, 95, 114, 101, 113, 117, 105, 114, 101, 100, 41,
        236, 157, 132, 32, 237, 153, 149, 236, 157, 184, 237, 149, 180, 236, 164, 152, 46
        :: nat]"

definition REFUSAL_TEXT :: string where
  \<comment> \<open>the Korean reply of lines 666 and 667, in UTF-8: no answer is given without a tool
      result, and no tool was called or all calls failed\<close>
  "REFUSAL_TEXT =
     map char_of
       [
        236, 157, 180, 32, 236, 154, 148, 236, 178, 173, 236, 157, 128, 32, 235, 143, 132,
        234, 181, 172, 32, 236, 139, 164, 237, 150, 137, 32, 234, 178, 176, 234, 179, 188,
        234, 176, 128, 32, 236, 158, 136, 236, 150, 180, 236, 149, 188, 32, 235, 139, 181,
        235, 179, 128, 237, 149, 160, 32, 236, 136, 152, 32, 236, 158, 136, 236, 150, 180,
        46, 32, 237, 152, 132, 236, 158, 172, 32, 235, 143, 132, 234, 181, 172, 32, 237,
        152, 184, 236, 182, 156, 236, 157, 180, 32, 236, 151, 134, 236, 151, 136, 234, 177,
        176, 235, 130, 152, 32, 235, 170, 168, 235, 145, 144, 32, 236, 139, 164, 237, 140,
        168, 237, 149, 180, 236, 132, 156, 32, 236, 182, 148, 236, 160, 149, 32, 235, 139,
        181, 235, 179, 128, 236, 157, 128, 32, 236, 160, 156, 234, 179, 181, 237, 149, 152,
        236, 167, 128, 32, 236, 149, 138, 236, 157, 132, 234, 178, 140, 46
        :: nat]"

definition EXHAUSTED_TEXT :: string where
  "EXHAUSTED_TEXT = ''I was unable to complete the request within the allowed steps.''"

subsection \<open>The ReAct loop of the Ollama backend\<close>

fun execute_preflight_tools ::
  "('a, 'w) router \<Rightarrow> string list \<Rightarrow> 'w \<Rightarrow> preflight_item list \<times> 'w" where
  "execute_preflight_tools r [] w = ([], w)"
| "execute_preflight_tools r (name # rest) w =
     (let (result_text, w1) = router_execute_tool (polaris_tools r) name (empty_dict r) w;
          item = \<lparr>pf_name = name, pf_content = result_text,
                  pf_ok = (\<not> looks_like_tool_error result_text)\<rparr>;
          (results, w2) = execute_preflight_tools r rest w1
      in (item # results, w2))"

text \<open>The local variables of \<^verbatim>\<open>_route_ollama\<close> that the loop changes, and the world.\<close>

record ('a, 'w) loop_state =
  st_tools_used :: "string list"
  st_successful_tools :: "string list"
  st_messages :: "'a message_item list"
  st_choice :: "'a choice option"
    \<comment> \<open>the variable \<^verbatim>\<open>choice\<close>; \<^const>\<open>None\<close> while it is unbound\<close>
  st_world :: 'w

definition exec_tool_call ::
  "('a, 'w) router \<Rightarrow> 'a tool_call \<Rightarrow> ('a, 'w) loop_state \<Rightarrow> ('a, 'w) loop_state" where
  \<comment> \<open>the body of \<^verbatim>\<open>for tool_call in choice.message.tool_calls\<close>, lines 641 to 658\<close>
  "exec_tool_call r tool_call st =
     (let name = tc_name tool_call;
          tool_args = (case tc_arguments tool_call of None \<Rightarrow> empty_dict r | Some a \<Rightarrow> a);
          st1 = st\<lparr>st_tools_used := st_tools_used st @ [name]\<rparr>;
          (result_text, w) = router_execute_tool (polaris_tools r) name tool_args (st_world st1);
          st2 = st1\<lparr>st_world := w,
                    st_successful_tools :=
                      (if \<not> looks_like_tool_error result_text
                       then st_successful_tools st1 @ [name]
                       else st_successful_tools st1)\<rparr>
      in st2\<lparr>st_messages := st_messages st2 @ [ToolMessage (tc_id tool_call) result_text]\<rparr>)"

fun exec_tool_calls ::
  "('a, 'w) router \<Rightarrow> 'a tool_call list \<Rightarrow> ('a, 'w) loop_state \<Rightarrow> ('a, 'w) loop_state" where
  "exec_tool_calls r [] st = st"
| "exec_tool_calls r (tool_call # rest) st = exec_tool_calls r rest (exec_tool_call r tool_call st)"

definition wants_tools :: "'a choice \<Rightarrow> bool" where
  \<comment> \<open>the test of line 634\<close>
  "wants_tools choice =
     (finish_reason choice = ''tool_calls'' \<or>
      (case tool_calls (choice_message choice) of None \<Rightarrow> False | Some tcs \<Rightarrow> tcs \<noteq> []))"

text \<open>One pass through the body of the loop either goes on to the next pass, returns, or raises.\<close>

datatype ('s, 'w) step = Continue 's | Return route_result 'w | Raise exn 'w

definition react_iteration ::
  "('a, 'w) router \<Rightarrow> enforcement \<Rightarrow> string \<Rightarrow> openai_function list option \<Rightarrow>
   ('a, 'w) loop_state \<Rightarrow> (('a, 'w) loop_state, 'w) step" where
  "react_iteration r enf active_model openai_tools st =
     (case chat_completions_create r (st_world st)
             \<lparr>rq_model = active_model, rq_messages = st_messages st, rq_max_tokens = 4096,
              rq_tools = openai_tools\<rparr> of
        (AuthenticationError, w) \<Rightarrow>
          Return \<lparr>response = ''Authentication error: please check the API configuration.'',
                  tools_used = st_tools_used st\<rparr> w
      | (APIError e, w) \<Rightarrow>
          Return \<lparr>response = ''API error: '' @ e, tools_used = st_tools_used st\<rparr> w
      | (ChatRaised x, w) \<Rightarrow> Raise x w
      | (ChatCompletion [], w) \<Rightarrow> Raise (Exn IndexError ''list index out of range'') w
      | (ChatCompletion (choice # others), w) \<Rightarrow>
          if wants_tools choice then
            (case tool_calls (choice_message choice) of
               None \<Rightarrow> Raise (Exn TypeError
                        ([CHR 0x27] @ ''NoneType'' @ [CHR 0x27] @ '' object is not iterable'')) w
             | Some tcs \<Rightarrow>
                 Continue
                   (exec_tool_calls r tcs
                      (st\<lparr>st_world := w, st_choice := Some choice,
                          st_messages := st_messages st @ [AssistantMessage (choice_message choice)]\<rparr>)))
          else
            let final_text = (case content (choice_message choice) of None \<Rightarrow> [] | Some t \<Rightarrow> t) in
            if requires_tool enf \<and> st_successful_tools st = []
            then Return \<lparr>response = REFUSAL_TEXT, tools_used = st_tools_used st\<rparr> w
            else Return \<lparr>response = final_text, tools_used = st_tools_used st\<rparr> w)"

definition exhausted :: "('a, 'w) loop_state \<Rightarrow> (exn + route_result) \<times> 'w" where
  \<comment> \<open>after the loop: \<^verbatim>\<open>choice\<close> is unbound when the loop body never ran\<close>
  "exhausted st =
     (case st_choice st of
        None \<Rightarrow>
          (Inl (Exn UnboundLocalError
                 (''cannot access local variable '' @ [CHR 0x27] @ ''choice'' @ [CHR 0x27] @
                  '' where it is not associated with a value'')),
           st_world st)
      | Some choice \<Rightarrow>
          (Inr \<lparr>response =
                  (case content (choice_message choice) of
                     None \<Rightarrow> EXHAUSTED_TEXT
                   | Some t \<Rightarrow> if t = [] then EXHAUSTED_TEXT else t),
                tools_used = st_tools_used st\<rparr>,
           st_world st))"

fun react_loop ::
  "('a, 'w) router \<Rightarrow> enforcement \<Rightarrow> string \<Rightarrow> openai_function list option \<Rightarrow> nat \<Rightarrow>
   ('a, 'w) loop_state \<Rightarrow> (exn + route_result) \<times> 'w" where
  \<comment> \<open>\<^verbatim>\<open>for iteration in range(self.max_iterations)\<close>, with the passes left to run\<close>
  "react_loop r enf active_model openai_tools 0 st = exhausted st"
| "react_loop r enf active_model openai_tools (Suc n) st =
     (case react_iteration r enf active_model openai_tools st of
        Continue st' \<Rightarrow> react_loop r enf active_model openai_tools n st'
      | Return res w \<Rightarrow> (Inr res, w)
      | Raise x w \<Rightarrow> (Inl x, w))"

definition matched_skills :: "('a, 'w) router \<Rightarrow> string \<Rightarrow> skill list" where
  \<comment> \<open>\<^verbatim>\<open>self.skill_registry.match(message) if self.skill_registry else []\<close>\<close>
  "matched_skills r message = (case skill_registry r of None \<Rightarrow> [] | Some match \<Rightarrow> match message)"

definition relevant_tools :: "('a, 'w) router \<Rightarrow> enforcement \<Rightarrow> string \<Rightarrow> tool_def list" where
  "relevant_tools r enf message =
     (if requires_tool enf \<and> allowed_tools enf \<noteq> []
      then get_tools_by_name (tools r) (allowed_tools enf)
      else select_relevant_tools (TOOL_KEYWORDS r) (tools r) message)"

definition initial_state ::
  "('a, 'w) router \<Rightarrow> enforcement \<Rightarrow> string \<Rightarrow> (string \<times> string) list \<Rightarrow> 'w \<Rightarrow>
   ('a, 'w) loop_state" where
  \<comment> \<open>lines 574 to 599: the preflight tools run, and the transcript starts with the system
      prompt, the history and the user's message\<close>
  "initial_state r enf message conversation_history w =
     (let has_tools = (relevant_tools r enf message \<noteq> []);
          (preflight_results, w1) = execute_preflight_tools r (preflight_tools enf) w;
          system_prompt = prompt_text r w message has_tools (Some enf) preflight_results
      in \<lparr>st_tools_used = map pf_name preflight_results,
          st_successful_tools = map pf_name (filter pf_ok preflight_results),
          st_messages =
            [SystemMessage system_prompt] @
            map (\<lambda>(role, text). HistoryMessage role text) conversation_history @
            [UserMessage message],
          st_choice = None,
          st_world = w1\<rparr>)"

definition active_model_for :: "('a, 'w) router \<Rightarrow> tool_def list \<Rightarrow> string" where
  "active_model_for r rel = (if rel \<noteq> [] then model_full r else model_fast r)"

definition openai_tools_for :: "tool_def list \<Rightarrow> openai_function list option" where
  "openai_tools_for rel = (if rel \<noteq> [] then Some (convert_tools_to_openai_format rel) else None)"

definition route_ollama ::
  "('a, 'w) router \<Rightarrow> string \<Rightarrow> (string \<times> string) list \<Rightarrow> 'w \<Rightarrow> (exn + route_result) \<times> 'w" where
  \<comment> \<open>\<^verbatim>\<open>PolarisRouter._route_ollama\<close>\<close>
  "route_ollama r message conversation_history w =
     (let enf = resolve_skill_enforcement (tools r) (matched_skills r message);
          rel = relevant_tools r enf message
      in if requires_tool enf \<and> rel = []
         then (Inr \<lparr>response = NO_SKILL_TOOLS_TEXT, tools_used = []\<rparr>, w)
         else
           react_loop r enf (active_model_for r rel) (openai_tools_for rel)
             (nat (max_iterations r)) (initial_state r enf message conversation_history w))"


subsection \<open>The ReAct loop of the Anthropic backend\<close>

record ('a, 'w) anthropic_state =
  an_tools_used :: "string list"
  an_messages :: "'a anthropic_message list"
  an_response :: "'a anthropic_response option"
    \<comment> \<open>the variable \<^verbatim>\<open>response\<close>; \<^const>\<open>None\<close> while it is unbound\<close>
  an_world :: 'w

fun exec_blocks ::
  "('a, 'w) router \<Rightarrow> 'a block list \<Rightarrow> string list \<times> (string \<times> string) list \<times> 'w \<Rightarrow>
   string list \<times> (string \<times> string) list \<times> 'w" where
  \<comment> \<open>\<^verbatim>\<open>for block in response.content\<close>, on \<^verbatim>\<open>tools_used\<close>, \<^verbatim>\<open>tool_results\<close> and the world\<close>
  "exec_blocks r [] acc = acc"
| "exec_blocks r (ToolUseBlock tool_use_id name tool_input # rest) (used, tool_results, w) =
     (let (result_text, w') = router_execute_tool (polaris_tools r) name tool_input w
      in exec_blocks r rest (used @ [name], tool_results @ [(tool_use_id, result_text)], w'))"
| "exec_blocks r (other # rest) acc = exec_blocks r rest acc"

fun text_parts :: "'a block list \<Rightarrow> string list" where
  \<comment> \<open>\<^verbatim>\<open>[block.text for block in response.content if block.type == "text"]\<close>\<close>
  "text_parts [] = []"
| "text_parts (TextBlock t # rest) = t # text_parts rest"
| "text_parts (other # rest) = text_parts rest"

fun join_lines :: "string list \<Rightarrow> string" where
  \<comment> \<open>\<^verbatim>\<open>"\n".join(parts)\<close>\<close>
  "join_lines [] = []"
| "join_lines [p] = p"
| "join_lines (p # q # ps) = p @ [CHR 0x0A] @ join_lines (q # ps)"

definition anthropic_iteration ::
  "('a, 'w) router \<Rightarrow> string \<Rightarrow> tool_def list option \<Rightarrow> ('a, 'w) anthropic_state \<Rightarrow>
   (('a, 'w) anthropic_state, 'w) step" where
  "anthropic_iteration r system api_tools st =
     (case messages_create r (an_world st)
             \<lparr>ar_model = model r, ar_max_tokens = 4096, ar_system = system, ar_tools = api_tools,
              ar_messages = an_messages st\<rparr> of
        (AnthropicAuthenticationError, w) \<Rightarrow>
          Return \<lparr>response = ''Authentication error: please check the API key configuration.'',
                  tools_used = an_tools_used st\<rparr> w
      | (AnthropicAPIError e, w) \<Rightarrow>
          Return \<lparr>response = ''API error: '' @ e, tools_used = an_tools_used st\<rparr> w
      | (AnthropicRaised x, w) \<Rightarrow> Raise x w
      | (AnthropicResponse resp, w) \<Rightarrow>
          if stop_reason resp = ''tool_use'' then
            let (used, tool_results, w') = exec_blocks r (blocks resp) (an_tools_used st, [], w)
            in Continue
                 \<lparr>an_tools_used = used,
                  an_messages = an_messages st @ [AAssistant (blocks resp), AToolResults tool_results],
                  an_response = Some resp,
                  an_world = w'\<rparr>
          else
            Return \<lparr>response = join_lines (text_parts (blocks resp)),
                    tools_used = an_tools_used st\<rparr> w)"

definition anthropic_exhausted :: "('a, 'w) anthropic_state \<Rightarrow> (exn + route_result) \<times> 'w" where
  "anthropic_exhausted st =
     (case an_response st of
        None \<Rightarrow>
          (Inl (Exn UnboundLocalError
                 (''cannot access local variable '' @ [CHR 0x27] @ ''response'' @ [CHR 0x27] @
                  '' where it is not associated with a value'')),
           an_world st)
      | Some resp \<Rightarrow>
          (Inr \<lparr>response =
                  (if text_parts (blocks resp) \<noteq> [] then join_lines (text_parts (blocks resp))
                   else EXHAUSTED_TEXT),
                tools_used = an_tools_used st\<rparr>,
           an_world st))"

fun anthropic_loop ::
  "('a, 'w) router \<Rightarrow> string \<Rightarrow> tool_def list option \<Rightarrow> nat \<Rightarrow> ('a, 'w) anthropic_state \<Rightarrow>
   (exn + route_result) \<times> 'w" where
  "anthropic_loop r system api_tools 0 st = anthropic_exhausted st"
| "anthropic_loop r system api_tools (Suc n) st =
     (case anthropic_iteration r system api_tools st of
        Continue st' \<Rightarrow> anthropic_loop r system api_tools n st'
      | Return res w \<Rightarrow> (Inr res, w)
      | Raise x w \<Rightarrow> (Inl x, w))"

definition route_anthropic ::
  "('a, 'w) router \<Rightarrow> string \<Rightarrow> (string \<times> string) list \<Rightarrow> 'w \<Rightarrow> (exn + route_result) \<times> 'w" where
  \<comment> \<open>\<^verbatim>\<open>PolarisRouter._route_anthropic\<close>\<close>
  "route_anthropic r message conversation_history w =
     (let rel = select_relevant_tools (TOOL_KEYWORDS r) (tools r) message
      in anthropic_loop r (prompt_text r w message (rel \<noteq> []) None [])
           (if rel \<noteq> [] then Some rel else None)
           (nat (max_iterations r))
           \<lparr>an_tools_used = [],
            an_messages =
              map (\<lambda>(role, text). AHistory role text) conversation_history @ [AUser message],
            an_response = None,
            an_world = w\<rparr>)"

subsection \<open>route\<close>

definition PAID_API_TEXT :: string where
  "PAID_API_TEXT =
     ''This request requires a paid API (Anthropic). '' @
     ''Set POLARIS_ALLOW_PAID_API=true to enable, '' @
     ''or use the default Ollama backend.''"

definition finish_turn ::
  "('a, 'w) router \<Rightarrow> string \<Rightarrow> (string \<times> string) list \<Rightarrow> string \<Rightarrow>
   (exn + route_result) \<times> 'w \<Rightarrow> (exn + route_result) \<times> 'w" where
  \<comment> \<open>lines 400 to 448: the bookkeeping runs when the backend returned, and the result is
      returned as it is\<close>
  "finish_turn r message conversation_history session_id out =
     (case out of
        (Inl x, w) \<Rightarrow> (Inl x, w)
      | (Inr result, w) \<Rightarrow> (Inr result, after_turn r message conversation_history session_id result w))"

definition route ::
  "('a, 'w) router \<Rightarrow> string \<Rightarrow> (string \<times> string) list \<Rightarrow> string \<Rightarrow> 'w \<Rightarrow>
   (exn + route_result) \<times> 'w" where
  \<comment> \<open>\<^verbatim>\<open>PolarisRouter.route\<close>\<close>
  "route r message conversation_history session_id w =
     (if backend r = ''anthropic'' then
        if \<not> allow_paid r then (Inr \<lparr>response = PAID_API_TEXT, tools_used = []\<rparr>, w)
        else finish_turn r message conversation_history session_id
               (route_anthropic r message conversation_history w)
      else finish_turn r message conversation_history session_id
             (route_ollama r message conversation_history w))"

text \<open>
  The state at the start of pass \<open>k\<close> of the Ollama loop, when the passes before it all went
  on to the next one.
\<close>

fun state_after ::
  "('a, 'w) router \<Rightarrow> enforcement \<Rightarrow> string \<Rightarrow> openai_function list option \<Rightarrow> nat \<Rightarrow>
   ('a, 'w) loop_state \<Rightarrow> ('a, 'w) loop_state option" where
  "state_after r enf active_model openai_tools 0 st = Some st"
| "state_after r enf active_model openai_tools (Suc k) st =
     (case react_iteration r enf active_model openai_tools st of
        Continue st' \<Rightarrow> state_after r enf active_model openai_tools k st'
      | Return res w \<Rightarrow> None
      | Raise x w \<Rightarrow> None)"

text \<open>The same for a whole turn, from the arguments of \<^const>\<open>route_ollama\<close>.\<close>

definition enforcement_for :: "('a, 'w) router \<Rightarrow> string \<Rightarrow> enforcement" where
  "enforcement_for r message = resolve_skill_enforcement (tools r) (matched_skills r message)"

definition turn_tools :: "('a, 'w) router \<Rightarrow> string \<Rightarrow> tool_def list" where
  "turn_tools r message = relevant_tools r (enforcement_for r message) message"

definition turn_request :: "('a, 'w) router \<Rightarrow> string \<Rightarrow> ('a, 'w) loop_state \<Rightarrow> 'a chat_request" where
  \<comment> \<open>what the loop sends to the model in state \<open>st\<close>\<close>
  "turn_request r message st =
     \<lparr>rq_model = active_model_for r (turn_tools r message), rq_messages = st_messages st,
      rq_max_tokens = 4096, rq_tools = openai_tools_for (turn_tools r message)\<rparr>"

definition turn_state_after ::
  "('a, 'w) router \<Rightarrow> string \<Rightarrow> (string \<times> string) list \<Rightarrow> 'w \<Rightarrow> nat \<Rightarrow> ('a, 'w) loop_state option" where
  \<comment> \<open>\<^const>\<open>None\<close> when the turn ends before pass \<open>k\<close> of the loop starts\<close>
  "turn_state_after r message conversation_history w k =
     (if requires_tool (enforcement_for r message) \<and> turn_tools r message = [] then None
      else if nat (max_iterations r) \<le> k then None
      else
        state_after r (enforcement_for r message) (active_model_for r (turn_tools r message))
          (openai_tools_for (turn_tools r message)) k
          (initial_state r (enforcement_for r message) message conversation_history w))"

subsection \<open>Notions used to state the router's properties\<close>

text \<open>A tool result that does not count as a success, in the words of claim C9.\<close>

definition spec_failed :: "string \<Rightarrow> bool" where
  \<open>spec_failed result_text =
     (contains (lower result_text) ''"error"'' \<or>
      contains (lower result_text) ([CHR 0x27] @ ''error'' @ [CHR 0x27]) \<or>
      (contains (lower result_text) (''tool '' @ [CHR 0x27]) \<and>
       contains (lower result_text) ''failed''))\<close>

text \<open>The number of tool calls a reply of the model asks for.\<close>

definition calls_in :: "'a chat_outcome \<Rightarrow> nat" where
  "calls_in outcome =
     (case outcome of
        ChatCompletion (choice # others) \<Rightarrow>
          (case tool_calls (choice_message choice) of None \<Rightarrow> 0 | Some tcs \<Rightarrow> length tcs)
      | _ \<Rightarrow> 0)"

fun tool_use_count :: "'a block list \<Rightarrow> nat" where
  "tool_use_count [] = 0"
| "tool_use_count (ToolUseBlock i n a # rest) = Suc (tool_use_count rest)"
| "tool_use_count (other # rest) = tool_use_count rest"

definition tool_uses_in :: "'a anthropic_outcome \<Rightarrow> nat" where
  "tool_uses_in outcome =
     (case outcome of AnthropicResponse resp \<Rightarrow> tool_use_count (blocks resp) | _ \<Rightarrow> 0)"

text \<open>The number of preflight tools of a turn; the Anthropic backend runs none.\<close>

definition preflight_count :: "('a, 'w) router \<Rightarrow> string \<Rightarrow> nat" where
  "preflight_count r message =
     (if backend r = ''anthropic'' then 0
      else length (preflight_tools (enforcement_for r message)))"

subsection \<open>A scripted router\<close>

text \<open>
  A router whose world is the number of model calls made so far, and whose model answers
  from a script. It has the tool and the skill of the repository's enforcement tests.
\<close>

definition hpc_tool :: tool_def where
  "hpc_tool =
     \<lparr>t_name = ''monitor_hpc_job'', t_description = Some ''x'',
      input_schema = Some \<lparr>schema_required = Some [''job_id'', ''path'']\<rparr>\<rparr>"

definition hpc_skill :: skill where
  "hpc_skill =
     \<lparr>skill_name = ''hpc_monitor'', skill_requires_tool = Some True,
      skill_strict_mode = Some True, skill_tool_chain = Some [''monitor_hpc_job''],
      skill_tools_required = Some [''monitor_hpc_job'']\<rparr>"

definition scripted_router ::
  "(nat \<Rightarrow> unit chat_outcome) \<Rightarrow> (string \<Rightarrow> (unit, nat) handler option) \<Rightarrow> int \<Rightarrow> (unit, nat) router" where
  "scripted_router script handlers n =
     \<lparr>max_iterations = n, backend = ''ollama'', allow_paid = False,
      model = ''claude-sonnet-4-5-20250929'', model_fast = ''llama3.1:8b'',
      model_full = ''llama70b-lite'', tools = [hpc_tool], TOOL_KEYWORDS = (\<lambda>name. None),
      skill_registry = Some (\<lambda>message. [hpc_skill]),
      chat_completions_create = (\<lambda>w request. (script w, Suc w)),
      messages_create = (\<lambda>w request. (AnthropicAPIError ''offline'', w)),
      polaris_tools = \<lparr>importable = True, HANDLERS = handlers\<rparr>,
      empty_dict = (),
      prompt_text = (\<lambda>w message has_tools enf preflight. ''system''),
      after_turn = (\<lambda>message history session result w. w)\<rparr>"

definition final_answer :: "string \<Rightarrow> unit choice" where
  "final_answer text =
     \<lparr>finish_reason = ''stop'', choice_message = \<lparr>content = Some text, tool_calls = Some []\<rparr>\<rparr>"

definition hallucinating_router :: "(unit, nat) router" where
  "hallucinating_router =
     scripted_router (\<lambda>w. ChatCompletion [final_answer ''hallucinated'']) (\<lambda>name. None) 10"

definition start_state :: "(unit, nat) loop_state" where
  "start_state =
     \<lparr>st_tools_used = [], st_successful_tools = [],
      st_messages = [SystemMessage ''system'', UserMessage ''job status''],
      st_choice = None, st_world = 0\<rparr>"

definition job_call :: "string \<Rightarrow> unit tool_call" where
  "job_call call_id = \<lparr>tc_id = call_id, tc_name = ''monitor_hpc_job'', tc_arguments = Some ()\<rparr>"

definition tool_request :: "unit tool_call list \<Rightarrow> unit choice" where
  "tool_request calls =
     \<lparr>finish_reason = ''tool_calls'', choice_message = \<lparr>content = None, tool_calls = Some calls\<rparr>\<rparr>"

definition error_field_payload :: string where
  \<open>error_field_payload = ''{"job_id": "42", "state": "RUNNING", "error": null}''\<close>

definition error_field_router :: "(unit, nat) router" where
  "error_field_router =
     scripted_router
       (\<lambda>w. if w = 0 then ChatCompletion [tool_request [job_call ''tc_1'']]
            else ChatCompletion [final_answer ''The job is running.''])
       (\<lambda>name. if name = ''monitor_hpc_job'' then Some (\<lambda>args w. (Inr error_field_payload, w))
               else None)
       10"

definition error_field_state :: "(unit, nat) loop_state" where
  "error_field_state =
     \<lparr>st_tools_used = [''monitor_hpc_job''], st_successful_tools = [],
      st_messages =
        [SystemMessage ''system'', UserMessage ''job status'',
         AssistantMessage \<lparr>content = None, tool_calls = Some [job_call ''tc_1'']\<rparr>,
         ToolMessage ''tc_1'' error_field_payload],
      st_choice = Some (tool_request [job_call ''tc_1'']), st_world = 1\<rparr>"

definition ok_payload :: string where
  \<open>ok_payload = ''{"ok": true}''\<close>

definition eager_router :: "(unit, nat) router" where
  "eager_router =
     scripted_router
       (\<lambda>w. if w = 0
            then ChatCompletion [tool_request [job_call ''tc_1'', job_call ''tc_2'', job_call ''tc_3'']]
            else ChatCompletion [final_answer ''Here are results.''])
       (\<lambda>name. if name = ''monitor_hpc_job'' then Some (\<lambda>args w. (Inr ok_payload, w)) else None)
       2"

text \<open>A tool package whose only handler raises.\<close>

definition failing_package :: "(unit, nat) tools_package" where
  "failing_package =
     \<lparr>importable = True,
      HANDLERS =
        (\<lambda>name. if name = ''monitor_hpc_job''
                then Some (\<lambda>args w. (Inl (Exn OtherException ''connection error''), Suc w))
                else None)\<rparr>"

section \<open>Approval gate (polaris/approval\_gate.py)\<close>

datatype RiskLevel = AUTO | CONFIRM | CRITICAL

fun risk_value :: "RiskLevel \<Rightarrow> string" where
  \<comment> \<open>\<^verbatim>\<open>risk.value\<close>\<close>
  "risk_value AUTO = ''AUTO''"
| "risk_value CONFIRM = ''CONFIRM''"
| "risk_value CRITICAL = ''CRITICAL''"

definition TOOL_RISK_MAP :: "string \<Rightarrow> RiskLevel option" where
  "TOOL_RISK_MAP =
     map_of
       [(''arxiv_search'', AUTO), (''get_schedule'', AUTO), (''list_physics_jobs'', AUTO),
        (''phd_handle'', AUTO),
        (''download_pdf'', CONFIRM), (''analyze_paper'', CONFIRM),
        (''check_physics_job'', CONFIRM), (''analyze_emails'', CONFIRM),
        (''submit_physics_job'', CRITICAL), (''send_email_reply'', CRITICAL)]"

fun TIMEOUTS :: "RiskLevel \<Rightarrow> nat option" where
  \<comment> \<open>\<^verbatim>\<open>_TIMEOUTS\<close>, in seconds; it has no entry for \<^const>\<open>AUTO\<close>\<close>
  "TIMEOUTS AUTO = None"
| "TIMEOUTS CONFIRM = Some 300"
| "TIMEOUTS CRITICAL = Some 1800"

definition risk_of :: "string \<Rightarrow> RiskLevel" where
  \<comment> \<open>\<^verbatim>\<open>TOOL_RISK_MAP.get(tool_name, RiskLevel.CONFIRM)\<close>\<close>
  "risk_of tool_name = (case TOOL_RISK_MAP tool_name of None \<Rightarrow> CONFIRM | Some risk \<Rightarrow> risk)"

record 'r approval =
  approved :: bool
  result :: "'r option"
  approval_level :: string

text \<open>
  What the gate does to the outside is recorded as a list of events, in order: a call of
  the execute function, and a message sent through the bot. A message is kept by the
  values its text and keyboard are built from: the approval request (risk level, tool,
  arguments, minutes to answer, callback id) and the notice that a request timed out.
\<close>

datatype 'a notice =
  ApprovalRequest RiskLevel string 'a nat string
| TimeoutNotice string

datatype 'a event = Executed 'a | Sent int "'a notice"

text \<open>
  What the user does with an approval request: \<^verbatim>\<open>handle_callback\<close> resolves the pending
  future with true or false, or \<^verbatim>\<open>asyncio.wait_for\<close> times out. The table of pending
  futures is not modelled.
\<close>

datatype decision = Approve | Deny | TimeOut

type_synonym 'a telegram_bot = "int \<Rightarrow> 'a notice \<Rightarrow> exn option"
  \<comment> \<open>\<^verbatim>\<open>bot.send_message\<close>: it returns (\<^const>\<open>None\<close>) or raises\<close>

definition call :: "('a \<Rightarrow> exn + 'r) \<Rightarrow> 'a \<Rightarrow> (exn + 'r) \<times> 'a event list" where
  \<comment> \<open>\<^verbatim>\<open>ApprovalGate._call\<close>: \<^verbatim>\<open>execute_fn(**tool_args)\<close>, awaited when it is a coroutine\<close>
  "call execute_fn tool_args = (execute_fn tool_args, [Executed tool_args])"

definition request_approval ::
  "'a telegram_bot \<Rightarrow> int \<Rightarrow> string \<Rightarrow> 'a \<Rightarrow> RiskLevel \<Rightarrow> string \<Rightarrow> decision \<Rightarrow>
   (exn + bool) \<times> 'a event list" where
  \<comment> \<open>\<^verbatim>\<open>ApprovalGate._request_approval\<close>; \<open>callback_id\<close> is \<^verbatim>\<open>uuid.uuid4().hex[:12]\<close>\<close>
  "request_approval tbot chat_id tool_name tool_args risk callback_id user =
     (case TIMEOUTS risk of
        None \<Rightarrow> (Inl (Exn OtherException ''KeyError''), [])
      | Some timeout \<Rightarrow>
          let request = ApprovalRequest risk tool_name tool_args (timeout div 60) callback_id in
          (case tbot chat_id request of
             Some e \<Rightarrow> (Inl e, [])
           | None \<Rightarrow>
               (case user of
                  Approve \<Rightarrow> (Inr True, [Sent chat_id request])
                | Deny \<Rightarrow> (Inr False, [Sent chat_id request])
                | TimeOut \<Rightarrow>
                    (case tbot chat_id (TimeoutNotice tool_name) of
                       Some e \<Rightarrow> (Inl e, [Sent chat_id request])
                     | None \<Rightarrow>
                         (Inr False,
                          [Sent chat_id request, Sent chat_id (TimeoutNotice tool_name)])))))"

definition execute_with_approval ::
  "string \<Rightarrow> 'a \<Rightarrow> ('a \<Rightarrow> exn + 'r) \<Rightarrow> 'a telegram_bot option \<Rightarrow> int option \<Rightarrow> string \<Rightarrow> decision \<Rightarrow>
   (exn + 'r approval) \<times> 'a event list" where
  \<comment> \<open>\<^verbatim>\<open>ApprovalGate.execute_with_approval\<close>; the last two arguments are the callback id
      drawn and the user's reaction, used when an approval is requested\<close>
  "execute_with_approval tool_name tool_args execute_fn tbot chat_id callback_id user =
     (let risk = risk_of tool_name in
      if risk = AUTO then
        (case call execute_fn tool_args of
           (Inl e, events) \<Rightarrow> (Inl e, events)
         | (Inr r, events) \<Rightarrow>
             (Inr \<lparr>approved = True, result = Some r, approval_level = risk_value risk\<rparr>, events))
      else
        (case (tbot, chat_id) of
           (Some the_bot, Some the_chat) \<Rightarrow>
             (case request_approval the_bot the_chat tool_name tool_args risk callback_id user of
                (Inl e, events) \<Rightarrow> (Inl e, events)
              | (Inr False, events) \<Rightarrow>
                  (Inr \<lparr>approved = False, result = None, approval_level = risk_value risk\<rparr>,
                   events)
              | (Inr True, events) \<Rightarrow>
                  (case call execute_fn tool_args of
                     (Inl e, events') \<Rightarrow> (Inl e, events @ events')
                   | (Inr r, events') \<Rightarrow>
                       (Inr \<lparr>approved = True, result = Some r,
                             approval_level = risk_value risk\<rparr>,
                        events @ events')))
         | _ \<Rightarrow> (Inr \<lparr>approved = False, result = None, approval_level = risk_value risk\<rparr>, [])))"

text \<open>The executor of the repository's tests, and a bot whose sends succeed.\<close>

definition sync_executor :: "string \<Rightarrow> exn + string" where
  "sync_executor query = Inr (''executed with '' @ query)"

definition quiet_bot :: "string telegram_bot" where
  "quiet_bot chat_id notice = None"

section \<open>Ensemble voter (rlm\_wrapper.py)\<close>

subsection \<open>True division of integers\<close>

text \<open>
  Python's \<^verbatim>\<open>a / b\<close> on integers is the exact quotient rounded to the nearest double, ties
  to even. Doubles are modelled by the rationals they denote; the rounding below is the one
  of the normal range, where the quotients of this program lie.
\<close>

fun bit_length :: "nat \<Rightarrow> nat" where
  "bit_length n = (if n = 0 then 0 else Suc (bit_length (n div 2)))"

definition floor_log2 :: "rat \<Rightarrow> int" where
  \<comment> \<open>for \<open>q > 0\<close>: the \<open>e\<close> with \<open>2 ^ e \<le> q < 2 ^ (e + 1)\<close>\<close>
  "floor_log2 q =
     (let (a, b) = quotient_of q;
          e0 = int (bit_length (nat a)) - int (bit_length (nat b))
      in if q < 2 powi e0 then e0 - 1 else e0)"

definition round_half_even :: "rat \<Rightarrow> int" where
  "round_half_even q =
     (let f = \<lfloor>q\<rfloor>; d = q - of_int f
      in if d < 1 / 2 then f else if 1 / 2 < d then f + 1 else if even f then f else f + 1)"

definition to_double :: "rat \<Rightarrow> rat" where
  "to_double q =
     (if q = 0 then 0
      else
        let ulp = 2 powi (floor_log2 \<bar>q\<bar> - 52)
        in sgn q * of_int (round_half_even (\<bar>q\<bar> / ulp)) * ulp)"

definition truediv :: "nat \<Rightarrow> nat \<Rightarrow> rat" where
  \<comment> \<open>\<^verbatim>\<open>a / b\<close> for \<open>b > 0\<close>\<close>
  "truediv a b = to_double (of_nat a / of_nat b)"

subsection \<open>collections.Counter\<close>

fun counter_add :: "'a \<Rightarrow> ('a \<times> nat) list \<Rightarrow> ('a \<times> nat) list" where
  \<comment> \<open>\<^verbatim>\<open>c[x] = c.get(x, 0) + 1\<close> on a dictionary kept in insertion order\<close>
  "counter_add x [] = [(x, 1)]"
| "counter_add x ((y, n) # rest) =
     (if x = y then (y, n + 1) # rest else (y, n) # counter_add x rest)"

definition Counter :: "'a list \<Rightarrow> ('a \<times> nat) list" where
  "Counter xs = foldl (\<lambda>c x. counter_add x c) [] xs"

fun most_common_1 :: "('a \<times> nat) list \<Rightarrow> ('a \<times> nat) list" where
  \<comment> \<open>\<^verbatim>\<open>most_common(1)\<close>: \<^verbatim>\<open>max\<close> by count, which keeps the first of equal maxima\<close>
  "most_common_1 [] = []"
| "most_common_1 (x # xs) = [foldl (\<lambda>best y. if snd best < snd y then y else best) x xs]"

subsection \<open>vote\_classify\<close>

record RLMConfig =
  n_inferences :: int
  min_quorum :: int
  confidence_threshold :: rat
  fallback_category :: string

text \<open>
  What a call of the classification function gives: a Python value, which is a text or
  not, or an exception. The function is called once per inference, and the calls need not
  agree, so it takes the number of the inference as well.
\<close>

datatype pyvalue = Str string | NotStr

definition single_inference :: "('m \<Rightarrow> nat \<Rightarrow> exn + pyvalue) \<Rightarrow> 'm \<Rightarrow> nat \<Rightarrow> pyvalue" where
  \<comment> \<open>\<^verbatim>\<open>EnsembleVoter._single_inference\<close>\<close>
  "single_inference classify_func mail inference_num =
     (case classify_func mail inference_num of
        Inr v \<Rightarrow> v
      | Inl e \<Rightarrow> Str (''ERROR: '' @ str_exn e))"

definition inference_results :: "RLMConfig \<Rightarrow> ('m \<Rightarrow> nat \<Rightarrow> exn + pyvalue) \<Rightarrow> 'm \<Rightarrow> pyvalue list" where
  \<comment> \<open>the tasks for \<^verbatim>\<open>range(self.config.n_inferences)\<close>, gathered in order\<close>
  "inference_results config classify_func mail =
     map (single_inference classify_func mail) [0 ..< nat (n_inferences config)]"

fun successful :: "pyvalue list \<Rightarrow> string list" where
  \<comment> \<open>\<^verbatim>\<open>[r for r in results if isinstance(r, str) and r in ['ACTION', 'FYI']]\<close>\<close>
  "successful [] = []"
| "successful (Str s # rest) =
     (if s = ''ACTION'' \<or> s = ''FYI'' then s # successful rest else successful rest)"
| "successful (NotStr # rest) = successful rest"

definition vote_classify ::
  "RLMConfig \<Rightarrow> ('m \<Rightarrow> nat \<Rightarrow> exn + pyvalue) \<Rightarrow> 'm \<Rightarrow> exn + string \<times> rat \<times> string list" where
  \<comment> \<open>\<^verbatim>\<open>EnsembleVoter.vote_classify\<close>, without its writes to the audit log\<close>
  "vote_classify config classify_func mail =
     (let results = inference_results config classify_func mail;
          successful_votes = successful results
      in if int (length successful_votes) < min_quorum config
         then Inr (fallback_category config, 0, successful_votes)
         else
           (case most_common_1 (Counter successful_votes) of
              [] \<Rightarrow> Inl (Exn IndexError ''list index out of range'')
            | (majority_vote, majority_count) # others \<Rightarrow>
                let confidence = truediv majority_count (length successful_votes)
                in if confidence < confidence_threshold config
                   then Inr (fallback_category config, confidence, successful_votes)
                   else Inr (majority_vote, confidence, successful_votes)))"


text \<open>The count a counter holds for a key.\<close>

definition count_of :: "('a \<times> nat) list \<Rightarrow> 'a \<Rightarrow> nat" where
  "count_of c l = (case map_of c l of None \<Rightarrow> 0 | Some n \<Rightarrow> n)"

definition votes_of :: "RLMConfig \<Rightarrow> ('m \<Rightarrow> nat \<Rightarrow> exn + pyvalue) \<Rightarrow> 'm \<Rightarrow> string list" where
  \<comment> \<open>the successes of a run\<close>
  "votes_of config classify_func mail = successful (inference_results config classify_func mail)"

text \<open>
  The configuration and the stub of scenario S4 of the specification, a stub that always
  answers the same, one that always raises, and a configuration with no quorum.
\<close>

definition s4_config :: RLMConfig where
  "s4_config =
     \<lparr>n_inferences = 5, min_quorum = 3, confidence_threshold = to_double (7 / 10),
      fallback_category = ''UNCERTAIN''\<rparr>"

definition s4_stub :: "unit \<Rightarrow> nat \<Rightarrow> exn + pyvalue" where
  "s4_stub mail i = Inr (Str ([''ACTION'', ''FYI'', ''FYI'', ''ACTION'', ''ACTION''] ! i))"

definition agreeing_stub :: "unit \<Rightarrow> nat \<Rightarrow> exn + pyvalue" where
  "agreeing_stub mail i = Inr (Str ''ACTION'')"

definition failing_stub :: "unit \<Rightarrow> nat \<Rightarrow> exn + pyvalue" where
  "failing_stub mail i = Inl (Exn OtherException ''timeout'')"

definition no_quorum_config :: RLMConfig where
  "no_quorum_config =
     \<lparr>n_inferences = 3, min_quorum = 0, confidence_threshold = to_double (7 / 10),
      fallback_category = ''UNCERTAIN''\<rparr>"

section \<open>Embedder (polaris/memory/embedder.py)\<close>

text \<open>
  A float32 value is given by its IEEE 754 binary32 bit pattern: bit 31 is the sign, bits
  30 to 23 the biased exponent, bits 22 to 0 the fraction. A Python float that holds such a
  value is packed by \<^verbatim>\<open>struct.pack\<close> with format \<^verbatim>\<open>f\<close> into the four bytes of this pattern, in
  the byte order of the machine (least significant byte first on x86 and ARM), and
  \<^verbatim>\<open>struct.unpack\<close> gives back the Python float of the pattern it reads.
\<close>

type_synonym float32 = "32 word"

type_synonym byte = "8 word"

definition sign_bit :: "float32 \<Rightarrow> bool" where
  "sign_bit w = bit w 31"

definition exponent :: "float32 \<Rightarrow> nat" where
  "exponent w = unat (take_bit 8 (drop_bit 23 w))"

definition fraction :: "float32 \<Rightarrow> nat" where
  "fraction w = unat (take_bit 23 w)"

definition is_finite :: "float32 \<Rightarrow> bool" where
  \<comment> \<open>neither an infinity nor a NaN\<close>
  "is_finite w = (exponent w \<noteq> 255)"

definition valof :: "float32 \<Rightarrow> real" where
  \<comment> \<open>the number a finite pattern stands for; exponent 0 holds zero and the subnormals\<close>
  "valof w =
     (if sign_bit w then - 1 else 1) *
     (if exponent w = 0 then real (fraction w) * 2
      else real (2 ^ 23 + fraction w) * 2 ^ exponent w) / 2 ^ 150"

definition pack_f :: "float32 \<Rightarrow> byte list" where
  "pack_f w = [ucast w, ucast (drop_bit 8 w), ucast (drop_bit 16 w), ucast (drop_bit 24 w)]"

definition to_bytes :: "float32 list \<Rightarrow> byte list" where
  \<comment> \<open>\<^verbatim>\<open>struct.pack(f"{len(vector)}f", *vector)\<close>\<close>
  "to_bytes vector = concat (map pack_f vector)"

definition unpack_f :: "byte \<Rightarrow> byte \<Rightarrow> byte \<Rightarrow> byte \<Rightarrow> float32" where
  "unpack_f b0 b1 b2 b3 =
     ucast b0 OR push_bit 8 (ucast b1) OR push_bit 16 (ucast b2) OR push_bit 24 (ucast b3)"

fun unpack_all :: "byte list \<Rightarrow> float32 list" where
  "unpack_all (b0 # b1 # b2 # b3 # rest) = unpack_f b0 b1 b2 b3 # unpack_all rest"
| "unpack_all rest = []"

fun digits :: "nat \<Rightarrow> string" where
  \<comment> \<open>\<^verbatim>\<open>str(n)\<close>\<close>
  "digits n = (if n < 10 then [char_of (48 + n)] else digits (n div 10) @ [char_of (48 + n mod 10)])"

definition from_bytes :: "byte list \<Rightarrow> exn + float32 list" where
  \<comment> \<open>\<^verbatim>\<open>n = len(blob) // 4; list(struct.unpack(f"{n}f", blob))\<close>: the buffer must be exactly
      \<open>4 * n\<close> bytes long\<close>
  "from_bytes blob =
     (let n = length blob div 4
      in if length blob = 4 * n then Inr (unpack_all blob)
         else Inl (Exn StructError (''unpack requires a buffer of '' @ digits (4 * n) @ '' bytes'')))"

definition sample_vector :: "float32 list" where
  \<comment> \<open>the floats \<^verbatim>\<open>[1.0, -0.5, 0.1f]\<close>, the last one the float32 nearest to one tenth\<close>
  "sample_vector = [0x3F800000, 0xBF000000, 0x3DCCCCCD]"

section \<open>Memory (polaris/memory/memory.py)\<close>

text \<open>
  The two tables the searches read, each as the list of its rows in the order a scan of
  the table yields them (SQLite walks a table by ascending row id, the order of insertion),
  with the columns the searches select. A \<^verbatim>\<open>NULL\<close> embedding is \<^const>\<open>None\<close>.
\<close>

record conversation_row =
  conv_id :: int
  conv_content :: string
  conv_embedding :: "byte list option"

record knowledge_row =
  know_id :: int
  know_title :: string
  know_content :: string
  know_category :: string
  know_embedding :: "byte list option"

record 's hit =
  source_table :: string
  hit_id :: int
  hit_content :: string
  hit_category :: "string option"
  score :: 's

text \<open>
  The embedder is handed to the memory when it is made. \<^verbatim>\<open>embed\<close> asks the embedding
  service and gives \<^verbatim>\<open>None\<close> when it has no answer; the query vector it gives is a list of
  Python floats, of a type \<^typ>\<open>'q\<close> left open here. A score is a Python float; here it is a
  value of any linear order \<^typ>\<open>'s\<close> (so not a NaN), with a zero for the score \<^verbatim>\<open>0.0\<close> of
  keyword hits. \<^verbatim>\<open>cosine_similarity\<close> may raise.
\<close>

record ('q, 's) embedder =
  embed :: "string \<Rightarrow> 'q option"
  cosine_similarity :: "'q \<Rightarrow> float32 list \<Rightarrow> exn + 's"

record ('q, 's) memory =
  embedder :: "('q, 's) embedder"
  conversations :: "conversation_row list"
  knowledge :: "knowledge_row list"
  like :: "string \<Rightarrow> string \<Rightarrow> bool"

definition sort_reverse :: "('a \<Rightarrow> 's::linorder) \<Rightarrow> 'a list \<Rightarrow> 'a list" where
  \<comment> \<open>\<^verbatim>\<open>xs.sort(key=key, reverse=True)\<close>: the list is reversed, sorted by a stable sort, and
      reversed again\<close>
  "sort_reverse key xs = rev (sort_key key (rev xs))"

definition slice_to :: "'a list \<Rightarrow> int \<Rightarrow> 'a list" where
  \<comment> \<open>\<^verbatim>\<open>xs[:k]\<close>; a negative \<open>k\<close> counts from the end\<close>
  "slice_to xs k = (if 0 \<le> k then take (nat k) xs else take (length xs - nat (- k)) xs)"

definition similarity :: "('q, 's) embedder \<Rightarrow> 'q \<Rightarrow> byte list \<Rightarrow> exn + 's" where
  \<comment> \<open>\<^verbatim>\<open>vec = self.embedder.from_bytes(blob); sim = self.embedder.cosine_similarity(query_vec, vec)\<close>\<close>
  "similarity e query_vec blob =
     (case from_bytes blob of
        Inl err \<Rightarrow> Inl err
      | Inr vec \<Rightarrow> cosine_similarity e query_vec vec)"

definition conversation_candidate ::
  "('q, 's) embedder \<Rightarrow> 'q \<Rightarrow> conversation_row \<Rightarrow> byte list \<Rightarrow> exn + 's hit" where
  "conversation_candidate e query_vec row blob =
     (case similarity e query_vec blob of
        Inl err \<Rightarrow> Inl err
      | Inr sim \<Rightarrow>
          Inr \<lparr>source_table = ''conversation'', hit_id = conv_id row,
               hit_content = conv_content row, hit_category = None, score = sim\<rparr>)"

definition knowledge_candidate ::
  "('q, 's) embedder \<Rightarrow> 'q \<Rightarrow> knowledge_row \<Rightarrow> byte list \<Rightarrow> exn + 's hit" where
  "knowledge_candidate e query_vec row blob =
     (case similarity e query_vec blob of
        Inl err \<Rightarrow> Inl err
      | Inr sim \<Rightarrow>
          Inr \<lparr>source_table = ''knowledge'', hit_id = know_id row,
               hit_content = know_title row @ '': '' @ know_content row,
               hit_category = Some (know_category row), score = sim\<rparr>)"

fun scan ::
  "('r \<Rightarrow> byte list option) \<Rightarrow> ('r \<Rightarrow> byte list \<Rightarrow> exn + 'h) \<Rightarrow> 'r list \<Rightarrow> 'h list \<Rightarrow> exn + 'h list" where
  \<comment> \<open>the loop over the rows \<^verbatim>\<open>WHERE embedding IS NOT NULL\<close>, appending to \<^verbatim>\<open>candidates\<close>; the
      first exception ends the search\<close>
  "scan embedding candidate [] candidates = Inr candidates"
| "scan embedding candidate (row # rows) candidates =
     (case embedding row of
        None \<Rightarrow> scan embedding candidate rows candidates
      | Some blob \<Rightarrow>
          (case candidate row blob of
             Inl err \<Rightarrow> Inl err
           | Inr h \<Rightarrow> scan embedding candidate rows (candidates @ [h])))"

definition all_candidates :: "('q, 's) memory \<Rightarrow> 'q \<Rightarrow> exn + 's hit list" where
  "all_candidates m query_vec =
     (case scan conv_embedding (conversation_candidate (embedder m) query_vec) (conversations m) [] of
        Inl err \<Rightarrow> Inl err
      | Inr candidates \<Rightarrow>
          scan know_embedding (knowledge_candidate (embedder m) query_vec) (knowledge m) candidates)"

definition semantic_search :: "('q, 's::linorder) memory \<Rightarrow> 'q \<Rightarrow> int \<Rightarrow> exn + 's hit list" where
  \<comment> \<open>\<^verbatim>\<open>PolarisMemory._semantic_search\<close>\<close>
  "semantic_search m query_vec top_k =
     (case all_candidates m query_vec of
        Inl err \<Rightarrow> Inl err
      | Inr candidates \<Rightarrow> Inr (slice_to (sort_reverse score candidates) top_k))"

definition order_by_id_desc :: "('a \<Rightarrow> int) \<Rightarrow> 'a list \<Rightarrow> 'a list" where
  \<comment> \<open>\<^verbatim>\<open>ORDER BY id DESC\<close>; the ids of a table differ\<close>
  "order_by_id_desc row_id rows = rev (sort_key row_id rows)"

definition sql_limit :: "'a list \<Rightarrow> int \<Rightarrow> 'a list" where
  \<comment> \<open>\<^verbatim>\<open>LIMIT n\<close>; in SQLite a negative \<open>n\<close> is no limit\<close>
  "sql_limit rows n = (if n < 0 then rows else take (nat n) rows)"

definition conversation_hit :: "conversation_row \<Rightarrow> ('s::zero) hit" where
  "conversation_hit row =
     \<lparr>source_table = ''conversation'', hit_id = conv_id row, hit_content = conv_content row,
      hit_category = None, score = 0\<rparr>"

definition knowledge_hit :: "knowledge_row \<Rightarrow> ('s::zero) hit" where
  "knowledge_hit row =
     \<lparr>source_table = ''knowledge'', hit_id = know_id row,
      hit_content = know_title row @ '': '' @ know_content row,
      hit_category = Some (know_category row), score = 0\<rparr>"

definition matching_conversations :: "('q, 's) memory \<Rightarrow> string \<Rightarrow> conversation_row list" where
  \<comment> \<open>\<^verbatim>\<open>WHERE content LIKE ? ORDER BY id DESC\<close> with the pattern \<^verbatim>\<open>f"%{query}%"\<close>\<close>
  "matching_conversations m query =
     order_by_id_desc conv_id
       (filter (\<lambda>row. like m (conv_content row) (''%'' @ query @ ''%'')) (conversations m))"

definition matching_knowledge :: "('q, 's) memory \<Rightarrow> string \<Rightarrow> knowledge_row list" where
  \<comment> \<open>\<^verbatim>\<open>WHERE content LIKE ? OR title LIKE ? ORDER BY id DESC\<close>\<close>
  "matching_knowledge m query =
     order_by_id_desc know_id
       (filter (\<lambda>row. like m (know_content row) (''%'' @ query @ ''%'') \<or>
                      like m (know_title row) (''%'' @ query @ ''%''))
          (knowledge m))"

definition keyword_search :: "('q, 's::zero) memory \<Rightarrow> string \<Rightarrow> int \<Rightarrow> 's hit list" where
  \<comment> \<open>\<^verbatim>\<open>PolarisMemory._keyword_search\<close>\<close>
  "keyword_search m query top_k =
     (let results = map conversation_hit (sql_limit (matching_conversations m query) top_k);
          remaining = top_k - int (length results)
      in if 0 < remaining
         then results @ map knowledge_hit (sql_limit (matching_knowledge m query) remaining)
         else results)"

definition search_memory ::
  "('q, 's::{linorder, zero}) memory \<Rightarrow> string \<Rightarrow> int \<Rightarrow> exn + 's hit list" where
  \<comment> \<open>\<^verbatim>\<open>PolarisMemory.search_memory\<close>\<close>
  "search_memory m query top_k =
     (case embed (embedder m) query of
        Some query_vec \<Rightarrow> semantic_search m query_vec top_k
      | None \<Rightarrow> Inr (keyword_search m query top_k))"

subsection \<open>Memories for the examples\<close>

text \<open>
  An embedder for examples. Its vectors are the unit vectors \<open>e\<^sub>1 = [1.0, 0.0]\<close> and
  \<open>e\<^sub>2 = [0.0, 1.0]\<close>, whose cosine is 1 when they are equal and 0 when they differ.
\<close>

definition e1 :: "float32 list" where
  "e1 = [0x3F800000, 0]"

definition e2 :: "float32 list" where
  "e2 = [0, 0x3F800000]"

definition unit_embedder :: "(string \<Rightarrow> float32 list option) \<Rightarrow> (float32 list, int) embedder" where
  "unit_embedder embed_text =
     \<lparr>embed = embed_text,
      cosine_similarity = (\<lambda>a b. Inr (if a = b then 1 else 0))\<rparr>"

definition contains_like :: "string \<Rightarrow> string \<Rightarrow> bool" where
  \<comment> \<open>\<^verbatim>\<open>LIKE\<close> for a pattern \<^verbatim>\<open>%q%\<close> whose \<open>q\<close> is ASCII and has no wildcard: \<open>q\<close> occurs,
      the case of letters ignored\<close>
  "contains_like subject pattern = contains (lower subject) (lower (butlast (tl pattern)))"

definition tie_memory :: "(float32 list, int) memory" where
  \<comment> \<open>three rows with the same embedding\<close>
  "tie_memory =
     \<lparr>embedder = unit_embedder (\<lambda>query. Some e1),
      conversations =
        [\<lparr>conv_id = 1, conv_content = ''older turn'', conv_embedding = Some (to_bytes e1)\<rparr>,
         \<lparr>conv_id = 2, conv_content = ''newer turn'', conv_embedding = Some (to_bytes e1)\<rparr>],
      knowledge =
        [\<lparr>know_id = 3, know_title = ''note'', know_content = ''newest'',
          know_category = ''personal'', know_embedding = Some (to_bytes e1)\<rparr>],
      like = contains_like\<rparr>"

definition mixed_memory :: "(float32 list, int) memory" where
  "mixed_memory =
     \<lparr>embedder = unit_embedder (\<lambda>query. Some e1),
      conversations =
        [\<lparr>conv_id = 1, conv_content = ''gym at six'', conv_embedding = Some (to_bytes e2)\<rparr>,
         \<lparr>conv_id = 2, conv_content = ''bandgap of MoS2'', conv_embedding = Some (to_bytes e1)\<rparr>,
         \<lparr>conv_id = 3, conv_content = ''no embedding'', conv_embedding = None\<rparr>],
      knowledge =
        [\<lparr>know_id = 1, know_title = ''MoS2'', know_content = ''1.8 eV'',
          know_category = ''research'', know_embedding = Some (to_bytes e1)\<rparr>],
      like = contains_like\<rparr>"

definition dft_memory :: "(float32 list, int) memory" where
  \<comment> \<open>the embedding service is down\<close>
  "dft_memory =
     \<lparr>embedder = unit_embedder (\<lambda>query. None),
      conversations =
        [\<lparr>conv_id = 1, conv_content = ''DFT calculation for MoS2'', conv_embedding = None\<rparr>,
         \<lparr>conv_id = 2, conv_content = ''Hello world'', conv_embedding = None\<rparr>,
         \<lparr>conv_id = 3, conv_content = ''rerun the dft job'', conv_embedding = None\<rparr>,
         \<lparr>conv_id = 4, conv_content = ''DFT converged'', conv_embedding = None\<rparr>],
      knowledge =
        [\<lparr>know_id = 1, know_title = ''VASP tutorial'', know_content = ''How to run VASP DFT'',
          know_category = ''research'', know_embedding = None\<rparr>],
      like = contains_like\<rparr>"

section \<open>Verification\<close>

subsection \<open>The enforcement policy\<close>

lemma spec_OR_Cons: "spec_OR (b # bs) = (b \<or> spec_OR bs)"
  by (simp add: spec_OR_def)

lemma foldl_append_new:
  "foldl (\<lambda>acc x. append_new x acc) acc xs = acc @ first_seen (filter (\<lambda>x. x \<notin> set acc) xs)"
proof (induction xs arbitrary: acc)
  case Nil
  show ?case by simp
next
  case (Cons x xs)
  show ?case
  proof (cases "x \<in> set acc")
    case True
    then show ?thesis using Cons.IH [of acc] by (simp add: append_new_def)
  next
    case False
    have "filter (\<lambda>y. y \<notin> set (acc @ [x])) xs = filter (\<lambda>y. y \<noteq> x) (filter (\<lambda>y. y \<notin> set acc) xs)"
      by (auto intro: filter_cong)
    with False show ?thesis using Cons.IH [of "acc @ [x]"] by (simp add: append_new_def)
  qed
qed

lemma enforce_names_flags:
  "requires_tool (enforce_names known ns e) = requires_tool e \<and>
   strict_mode (enforce_names known ns e) = strict_mode e"
  by (induction ns arbitrary: e) (auto simp: Let_def split: option.splits)

lemma enforce_names_allowed:
  "allowed_tools (enforce_names known ns e) = foldl (\<lambda>acc x. append_new x acc) (allowed_tools e) ns"
  by (induction ns arbitrary: e) (auto simp: Let_def split: option.splits)

lemma enforce_names_chain:
  "chain_tools (enforce_names known ns e) = foldl (\<lambda>acc x. append_new x acc) (chain_tools e) ns"
  by (induction ns arbitrary: e) (auto simp: Let_def split: option.splits)

lemma enforce_skills_requires:
  "requires_tool (enforce_skills known ss e) =
     (requires_tool e \<or> spec_OR (map get_requires_tool ss))"
  by (induction ss arbitrary: e) (auto simp: Let_def spec_OR_def enforce_names_flags)

lemma enforce_skills_strict:
  "strict_mode (enforce_skills known ss e) =
     (strict_mode e \<or> spec_OR (map get_strict_mode (filter get_requires_tool ss)))"
  by (induction ss arbitrary: e) (auto simp: Let_def spec_OR_def enforce_names_flags)

lemma enforce_skills_allowed:
  "allowed_tools (enforce_skills known ss e) =
     foldl (\<lambda>acc x. append_new x acc) (allowed_tools e)
       (concat (map ordered (filter get_requires_tool ss)))"
  by (induction ss arbitrary: e) (auto simp: Let_def enforce_names_allowed)

lemma enforce_skills_chain:
  "chain_tools (enforce_skills known ss e) =
     foldl (\<lambda>acc x. append_new x acc) (chain_tools e)
       (concat (map ordered (filter get_requires_tool ss)))"
  by (induction ss arbitrary: e) (auto simp: Let_def enforce_names_chain)

text \<open>
  Claim C5, as amended. The policy computed from the matched skills has \<^const>\<open>requires_tool\<close>
  equal to the OR of the skills' \<^verbatim>\<open>requires_tool\<close> flags. Only the skills whose
  \<^verbatim>\<open>requires_tool\<close> flag is set contribute to the rest: \<^const>\<open>strict_mode\<close> is the OR of
  their \<^verbatim>\<open>strict_mode\<close> flags (an absent flag counts as true), and \<^const>\<open>allowed_tools\<close>
  and \<^const>\<open>chain_tools\<close> are both the ordered union, in first-seen order, of their tool
  chains (of \<^verbatim>\<open>tools_required\<close> where the chain is empty).
\<close>

theorem resolve_skill_enforcement_policy:
  "requires_tool (resolve_skill_enforcement ts ms) = spec_OR (map get_requires_tool ms) \<and>
   strict_mode (resolve_skill_enforcement ts ms) =
     spec_OR (map get_strict_mode (filter get_requires_tool ms)) \<and>
   allowed_tools (resolve_skill_enforcement ts ms) =
     spec_ordered_union (map ordered (filter get_requires_tool ms)) \<and>
   chain_tools (resolve_skill_enforcement ts ms) =
     spec_ordered_union (map ordered (filter get_requires_tool ms))"
  by (simp add: resolve_skill_enforcement_def enforce_skills_requires enforce_skills_strict
      enforce_skills_allowed enforce_skills_chain foldl_append_new spec_ordered_union_def)

text \<open>
  Claim C5 as stated takes the OR and the union over all matched skills. A matched skill
  with \<^verbatim>\<open>requires_tool: false\<close>, \<^verbatim>\<open>strict_mode: true\<close> and a tool chain is skipped by the
  loop's guard: the policy is not strict and allows no tool.
\<close>

theorem policy_over_all_skills_counterexample:
  "strict_mode (resolve_skill_enforcement [] [advisory_skill]) = False \<and>
   spec_OR (map get_strict_mode [advisory_skill]) = True \<and>
   allowed_tools (resolve_skill_enforcement [] [advisory_skill]) = [] \<and>
   chain_tools (resolve_skill_enforcement [] [advisory_skill]) = [] \<and>
   spec_ordered_union (map ordered [advisory_skill]) = [''search_arxiv'']"
  by (simp add: resolve_skill_enforcement_def advisory_skill_def get_requires_tool_def
      get_strict_mode_def spec_OR_def spec_ordered_union_def ordered_def get_tool_chain_def)

subsection \<open>Tool errors\<close>

lemma lower_append: "lower (a @ b) = lower a @ lower b"
  by (simp add: lower_def)

lemma contains_middle: "contains (a @ p @ b) p"
  by (auto simp: contains_def sublist_def)

lemma json_error_looks_like_error: "looks_like_tool_error (json_dumps_error msg)"
proof -
  have low: \<open>lower ''{"error": '' = ''{'' @ ''"error"'' @ '': ''\<close> by code_simp
  have \<open>contains (lower (json_dumps_error msg)) ''"error"''\<close>
    unfolding json_dumps_error_def lower_append low
    using contains_middle [of \<open>''{''\<close> \<open>''"error"''\<close>] by simp
  then show ?thesis by (simp add: looks_like_tool_error_def Let_def)
qed

lemma failed_text_looks_like_error: "looks_like_tool_error (failed_text name e)"
proof -
  have low1: "lower (''Tool '' @ [CHR 0x27]) = ''tool '' @ [CHR 0x27]" by code_simp
  have low2: "lower ([CHR 0x27] @ '' failed: '') = [CHR 0x27, CHR '' ''] @ ''failed'' @ '': ''"
    by code_simp
  have lowered: "lower (failed_text name e) =
      (''tool '' @ [CHR 0x27]) @ lower name @ [CHR 0x27, CHR '' ''] @ ''failed'' @ '': '' @
      lower (str_exn e)"
    using low1 low2 by (simp add: failed_text_def lower_append lower_def)
  have "contains (lower (failed_text name e)) (''tool '' @ [CHR 0x27])"
    unfolding lowered using contains_middle [of "[]" "''tool '' @ [CHR 0x27]"] by simp
  moreover have "contains (lower (failed_text name e)) ''failed''"
    unfolding lowered
    using contains_middle [of "(''tool '' @ [CHR 0x27]) @ lower name @ [CHR 0x27, CHR '' '']" "''failed''"]
    by simp
  ultimately show ?thesis by (simp add: looks_like_tool_error_def Let_def)
qed

text \<open>
  Claim C7, as amended. For a name with no handler, \<^const>\<open>execute_tool\<close> returns the JSON text
  \<^verbatim>\<open>{"error": "Unknown tool: <name>"}\<close>, and so does the router's \<^verbatim>\<open>_execute_tool\<close>. An
  exception raised by a handler propagates out of \<^const>\<open>execute_tool\<close>; the router's
  \<^verbatim>\<open>_execute_tool\<close> catches it and returns the plain text \<^verbatim>\<open>Tool '<name>' failed: <e>\<close> (for
  an \<^verbatim>\<open>ImportError\<close>, the text that the tools are unavailable). The JSON text and the
  \<^verbatim>\<open>failed\<close> text both look like a tool error to the router.
\<close>

theorem tool_errors_as_text:
  "(HANDLERS pkg name = None \<longrightarrow>
      execute_tool (HANDLERS pkg) name args w =
        (Inr (json_dumps_error (''Unknown tool: '' @ name)), w) \<and>
      (importable pkg \<longrightarrow>
         router_execute_tool pkg name args w = (json_dumps_error (''Unknown tool: '' @ name), w)) \<and>
      looks_like_tool_error (json_dumps_error (''Unknown tool: '' @ name))) \<and>
   (HANDLERS pkg name = Some handler \<and> handler args w = (Inl e, w') \<longrightarrow>
      execute_tool (HANDLERS pkg) name args w = (Inl e, w') \<and>
      (importable pkg \<and> exn_class_of e \<noteq> ImportError \<longrightarrow>
         router_execute_tool pkg name args w = (failed_text name e, w') \<and>
         looks_like_tool_error (failed_text name e)) \<and>
      (importable pkg \<and> exn_class_of e = ImportError \<longrightarrow>
         router_execute_tool pkg name args w = (UNAVAILABLE_TEXT, w')))"
proof (intro conjI impI)
  assume "HANDLERS pkg name = None"
  then show unknown: "execute_tool (HANDLERS pkg) name args w =
      (Inr (json_dumps_error (''Unknown tool: '' @ name)), w)"
    by (simp add: execute_tool_def)
  show "looks_like_tool_error (json_dumps_error (''Unknown tool: '' @ name))"
    by (rule json_error_looks_like_error)
  assume "importable pkg"
  with unknown show "router_execute_tool pkg name args w =
      (json_dumps_error (''Unknown tool: '' @ name), w)"
    by (simp add: router_execute_tool_def)
next
  assume raised: "HANDLERS pkg name = Some handler \<and> handler args w = (Inl e, w')"
  then show propagated: "execute_tool (HANDLERS pkg) name args w = (Inl e, w')"
    by (simp add: execute_tool_def)
  {
    assume "importable pkg \<and> exn_class_of e \<noteq> ImportError"
    with propagated show "router_execute_tool pkg name args w = (failed_text name e, w')"
      by (simp add: router_execute_tool_def)
    show "looks_like_tool_error (failed_text name e)"
      by (rule failed_text_looks_like_error)
  }
  assume "importable pkg \<and> exn_class_of e = ImportError"
  with propagated show "router_execute_tool pkg name args w = (UNAVAILABLE_TEXT, w')"
    by (simp add: router_execute_tool_def)
qed

text \<open>
  Claim C7 as stated has the registry catch a handler's exception and render it as JSON.
  With a handler that raises, \<^const>\<open>execute_tool\<close> raises too, and the text the router makes of
  the exception is not JSON.
\<close>

theorem handler_exception_as_json_counterexample:
  \<open>execute_tool (HANDLERS failing_package) ''monitor_hpc_job'' () 0 =
     (Inl (Exn OtherException ''connection error''), 1) \<and>
   router_execute_tool failing_package ''monitor_hpc_job'' () 0 =
     (''Tool '' @ [CHR 0x27] @ ''monitor_hpc_job'' @ [CHR 0x27] @ '' failed: connection error'', 1) \<and>
   hd (fst (router_execute_tool failing_package ''monitor_hpc_job'' () 0)) \<noteq> CHR ''{''\<close>
  by (simp add: failing_package_def execute_tool_def router_execute_tool_def failed_text_def)

theorem tool_errors_as_text_witness:
  \<open>HANDLERS failing_package ''nonexistent_tool_xyz'' = None \<and>
   importable failing_package \<and>
   execute_tool (HANDLERS failing_package) ''nonexistent_tool_xyz'' () 0 =
     (Inr ''{"error": "Unknown tool: nonexistent_tool_xyz"}'', 0) \<and>
   router_execute_tool failing_package ''nonexistent_tool_xyz'' () 0 =
     (''{"error": "Unknown tool: nonexistent_tool_xyz"}'', 0) \<and>
   looks_like_tool_error ''{"error": "Unknown tool: nonexistent_tool_xyz"}'' \<and>
   HANDLERS failing_package ''monitor_hpc_job'' =
     Some (\<lambda>args w. (Inl (Exn OtherException ''connection error''), Suc w)) \<and>
   exn_class_of (Exn OtherException ''connection error'') \<noteq> ImportError \<and>
   execute_tool (HANDLERS failing_package) ''monitor_hpc_job'' () 0 =
     (Inl (Exn OtherException ''connection error''), 1) \<and>
   router_execute_tool failing_package ''monitor_hpc_job'' () 0 =
     (failed_text ''monitor_hpc_job'' (Exn OtherException ''connection error''), 1) \<and>
   looks_like_tool_error (failed_text ''monitor_hpc_job'' (Exn OtherException ''connection error''))\<close>
proof -
  have dump: \<open>json_dumps_error ''Unknown tool: nonexistent_tool_xyz'' =
      ''{"error": "Unknown tool: nonexistent_tool_xyz"}''\<close>
    by code_simp
  have h1: "HANDLERS failing_package ''nonexistent_tool_xyz'' = None"
    and h2: "importable failing_package"
    and h3: "HANDLERS failing_package ''monitor_hpc_job'' =
      Some (\<lambda>args w. (Inl (Exn OtherException ''connection error''), Suc w))"
    by (simp_all add: failing_package_def)
  have h4: "(\<lambda>args w. (Inl (Exn OtherException ''connection error''), Suc w)) () (0::nat) =
      (Inl (Exn OtherException ''connection error''), 1)"
    by simp
  have h5: "exn_class_of (Exn OtherException ''connection error'') \<noteq> ImportError" by simp
  from tool_errors_as_text [where pkg = failing_package and name = "''nonexistent_tool_xyz''"
      and args = "()" and w = 0] h1 h2
  have unknown: \<open>execute_tool (HANDLERS failing_package) ''nonexistent_tool_xyz'' () 0 =
     (Inr ''{"error": "Unknown tool: nonexistent_tool_xyz"}'', 0) \<and>
   router_execute_tool failing_package ''nonexistent_tool_xyz'' () 0 =
     (''{"error": "Unknown tool: nonexistent_tool_xyz"}'', 0) \<and>
   looks_like_tool_error ''{"error": "Unknown tool: nonexistent_tool_xyz"}''\<close>
    by (simp add: dump)
  from tool_errors_as_text [where pkg = failing_package and name = "''monitor_hpc_job''"
      and args = "()" and w = 0 and w' = 1 and e = "Exn OtherException ''connection error''"
      and handler = "\<lambda>args w. (Inl (Exn OtherException ''connection error''), Suc w)"] h2 h3 h4 h5
  have raised: "execute_tool (HANDLERS failing_package) ''monitor_hpc_job'' () 0 =
     (Inl (Exn OtherException ''connection error''), 1) \<and>
   router_execute_tool failing_package ''monitor_hpc_job'' () 0 =
     (failed_text ''monitor_hpc_job'' (Exn OtherException ''connection error''), 1) \<and>
   looks_like_tool_error (failed_text ''monitor_hpc_job'' (Exn OtherException ''connection error''))"
    by simp
  from h1 h2 h3 h5 unknown raised show ?thesis by blast
qed

subsection \<open>The ReAct loop\<close>

lemma exec_tool_calls_tools_used:
  "st_tools_used (exec_tool_calls r tcs st) = st_tools_used st @ map tc_name tcs"
  by (induction tcs arbitrary: st) (auto simp: exec_tool_call_def Let_def split: prod.splits)

lemma react_loop_state_after:
  "k \<le> n \<Longrightarrow> state_after r enf m t k st = Some st' \<Longrightarrow>
   react_loop r enf m t n st = react_loop r enf m t (n - k) st'"
proof (induction k arbitrary: n st)
  case 0
  then show ?case by simp
next
  case (Suc k)
  then obtain n' where n: "n = Suc n'" "k \<le> n'" by (cases n) auto
  from Suc.prems(2) obtain st1 where
    it: "react_iteration r enf m t st = Continue st1" and after: "state_after r enf m t k st1 = Some st'"
    by (auto split: step.splits)
  from Suc.IH [OF n(2) after] n it show ?case by simp
qed

lemma route_ollama_turn:
  "route_ollama r message history w =
     (if requires_tool (enforcement_for r message) \<and> turn_tools r message = []
      then (Inr \<lparr>response = NO_SKILL_TOOLS_TEXT, tools_used = []\<rparr>, w)
      else
        react_loop r (enforcement_for r message) (active_model_for r (turn_tools r message))
          (openai_tools_for (turn_tools r message)) (nat (max_iterations r))
          (initial_state r (enforcement_for r message) message history w))"
  by (simp add: route_ollama_def Let_def enforcement_for_def turn_tools_def)

lemma route_ollama_at_state:
  assumes "turn_state_after r message history w k = Some st"
  shows "route_ollama r message history w =
     react_loop r (enforcement_for r message) (active_model_for r (turn_tools r message))
       (openai_tools_for (turn_tools r message)) (nat (max_iterations r) - k) st"
proof -
  from assms have early: "\<not> (requires_tool (enforcement_for r message) \<and> turn_tools r message = [])"
    and k: "k < nat (max_iterations r)"
    and after: "state_after r (enforcement_for r message) (active_model_for r (turn_tools r message))
          (openai_tools_for (turn_tools r message)) k
          (initial_state r (enforcement_for r message) message history w) = Some st"
    by (auto simp: turn_state_after_def split: if_splits)
  from k have "k \<le> nat (max_iterations r)" by simp
  from react_loop_state_after [OF this after] have
    "react_loop r (enforcement_for r message) (active_model_for r (turn_tools r message))
          (openai_tools_for (turn_tools r message)) (nat (max_iterations r))
          (initial_state r (enforcement_for r message) message history w) =
     react_loop r (enforcement_for r message) (active_model_for r (turn_tools r message))
       (openai_tools_for (turn_tools r message)) (nat (max_iterations r) - k) st" .
  with early show ?thesis by (simp only: route_ollama_turn if_False)
qed

lemma react_loop_final_answer:
  assumes "k < n"
    and "chat_completions_create r (st_world st)
           \<lparr>rq_model = m, rq_messages = st_messages st, rq_max_tokens = 4096, rq_tools = t\<rparr> =
         (ChatCompletion (choice # others), w')"
    and "\<not> wants_tools choice"
  shows "react_loop r enf m t (n - k) st =
     (Inr \<lparr>response =
             (if requires_tool enf \<and> st_successful_tools st = [] then REFUSAL_TEXT
              else case content (choice_message choice) of None \<Rightarrow> [] | Some txt \<Rightarrow> txt),
           tools_used = st_tools_used st\<rparr>, w')"
proof -
  from assms(1) obtain j where "n - k = Suc j" by (cases "n - k") auto
  with assms(2,3) show ?thesis by (simp add: react_iteration_def Let_def)
qed

lemma fst_finish_turn: "fst (finish_turn r message history session out) = fst out"
  by (auto simp: finish_turn_def split: prod.splits sum.splits)

lemma route_at_final_answer:
  assumes "backend r \<noteq> ''anthropic''"
    and "turn_state_after r message history w k = Some st"
    and "chat_completions_create r (st_world st) (turn_request r message st) =
         (ChatCompletion (choice # others), w')"
    and "\<not> wants_tools choice"
  shows "fst (route r message history session w) =
     Inr \<lparr>response =
           (if requires_tool (enforcement_for r message) \<and> st_successful_tools st = []
            then REFUSAL_TEXT
            else case content (choice_message choice) of None \<Rightarrow> [] | Some answer \<Rightarrow> answer),
         tools_used = st_tools_used st\<rparr>"
proof -
  from assms(2) have k: "k < nat (max_iterations r)"
    by (auto simp: turn_state_after_def split: if_splits)
  have "fst (route_ollama r message history w) =
     Inr \<lparr>response =
           (if requires_tool (enforcement_for r message) \<and> st_successful_tools st = []
            then REFUSAL_TEXT
            else case content (choice_message choice) of None \<Rightarrow> [] | Some answer \<Rightarrow> answer),
         tools_used = st_tools_used st\<rparr>"
    using route_ollama_at_state [OF assms(2)]
      react_loop_final_answer [OF k assms(3) [unfolded turn_request_def] assms(4)]
    by simp
  with assms(1) show ?thesis
    by (simp add: route_def fst_finish_turn)
qed

text \<open>
  Claim C1. On the backend that computes an enforcement policy (every backend but
  \<^verbatim>\<open>anthropic\<close>): when the policy requires a tool, pass \<open>k\<close> of the loop is reached in state
  \<open>st\<close>, the model's reply there asks for no tool, and \<open>st\<close> records no successful tool
  (preflight runs are part of the first state), then \<^const>\<open>route\<close> returns the refusal text and
  the tools used so far, whatever text the model answered.
\<close>

theorem route_refuses_without_successful_tool:
  assumes "backend r \<noteq> ''anthropic''"
    and "requires_tool (enforcement_for r message)"
    and "turn_state_after r message history w k = Some st"
    and "chat_completions_create r (st_world st) (turn_request r message st) =
         (ChatCompletion (choice # others), w')"
    and "\<not> wants_tools choice"
    and "st_successful_tools st = []"
  shows "fst (route r message history session w) =
     Inr \<lparr>response = REFUSAL_TEXT, tools_used = st_tools_used st\<rparr>"
  using route_at_final_answer [OF assms(1,3,4,5)] assms(2,6) by simp

lemma looks_like_tool_error_spec: "looks_like_tool_error t = spec_failed t"
  by (auto simp: looks_like_tool_error_def spec_failed_def Let_def)

lemma lower_error_field: \<open>lower ''"error"'' = ''"error"''\<close>
  by code_simp

lemma error_field_looks_like_error: \<open>looks_like_tool_error (pre @ ''"error"'' @ post)\<close>
  unfolding looks_like_tool_error_def Let_def lower_append lower_error_field
  using contains_middle by blast

lemma exec_tool_call_effect:
  "\<exists>payload w.
     router_execute_tool (polaris_tools r) (tc_name tc)
       (case tc_arguments tc of None \<Rightarrow> empty_dict r | Some a \<Rightarrow> a) (st_world st) = (payload, w) \<and>
     st_tools_used (exec_tool_call r tc st) = st_tools_used st @ [tc_name tc] \<and>
     st_messages (exec_tool_call r tc st) = st_messages st @ [ToolMessage (tc_id tc) payload] \<and>
     st_successful_tools (exec_tool_call r tc st) =
       (if looks_like_tool_error payload then st_successful_tools st
        else st_successful_tools st @ [tc_name tc]) \<and>
     st_choice (exec_tool_call r tc st) = st_choice st"
  by (cases "router_execute_tool (polaris_tools r) (tc_name tc)
      (case tc_arguments tc of None \<Rightarrow> empty_dict r | Some a \<Rightarrow> a) (st_world st)")
    (simp add: exec_tool_call_def Let_def)

lemma exec_tool_calls_messages_mono:
  "set (st_messages st) \<subseteq> set (st_messages (exec_tool_calls r tcs st))"
proof (induction tcs arbitrary: st)
  case Nil
  show ?case by simp
next
  case (Cons tc tcs)
  from exec_tool_call_effect [of r tc st]
  have "set (st_messages st) \<subseteq> set (st_messages (exec_tool_call r tc st))" by auto
  also have "\<dots> \<subseteq> set (st_messages (exec_tool_calls r tcs (exec_tool_call r tc st)))"
    by (rule Cons.IH)
  finally show ?case by simp
qed

lemma exec_tool_calls_success:
  "st_successful_tools (exec_tool_calls r tcs st) \<noteq> [] \<Longrightarrow>
   st_successful_tools st \<noteq> [] \<or>
   (\<exists>call_id payload. ToolMessage call_id payload \<in> set (st_messages (exec_tool_calls r tcs st)) \<and>
      \<not> looks_like_tool_error payload)"
proof (induction tcs arbitrary: st)
  case Nil
  then show ?case by simp
next
  case (Cons tc tcs)
  let ?st1 = "exec_tool_call r tc st"
  from exec_tool_call_effect [of r tc st] obtain payload where
    msgs: "st_messages ?st1 = st_messages st @ [ToolMessage (tc_id tc) payload]" and
    succ: "st_successful_tools ?st1 =
       (if looks_like_tool_error payload then st_successful_tools st
        else st_successful_tools st @ [tc_name tc])"
    by blast
  from Cons.prems have "st_successful_tools (exec_tool_calls r tcs ?st1) \<noteq> []" by simp
  from Cons.IH [OF this] consider
      (before) "st_successful_tools ?st1 \<noteq> []"
    | (later) "\<exists>call_id payload.
        ToolMessage call_id payload \<in> set (st_messages (exec_tool_calls r tcs ?st1)) \<and>
        \<not> looks_like_tool_error payload"
    by blast
  then show ?case
  proof cases
    case later
    then show ?thesis by simp
  next
    case before
    show ?thesis
    proof (cases "looks_like_tool_error payload")
      case True
      with before succ show ?thesis by simp
    next
      case False
      from msgs have "ToolMessage (tc_id tc) payload \<in> set (st_messages ?st1)" by simp
      with exec_tool_calls_messages_mono [of ?st1 r tcs]
      have "ToolMessage (tc_id tc) payload \<in> set (st_messages (exec_tool_calls r tcs ?st1))"
        by blast
      with False show ?thesis by auto
    qed
  qed
qed

lemma react_iteration_Continue:
  assumes "react_iteration r enf m t st = Continue st'"
  shows "\<exists>choice others w tcs.
     chat_completions_create r (st_world st)
       \<lparr>rq_model = m, rq_messages = st_messages st, rq_max_tokens = 4096, rq_tools = t\<rparr> =
       (ChatCompletion (choice # others), w) \<and>
     tool_calls (choice_message choice) = Some tcs \<and>
     st' = exec_tool_calls r tcs
       (st\<lparr>st_world := w, st_choice := Some choice,
           st_messages := st_messages st @ [AssistantMessage (choice_message choice)]\<rparr>)"
  using assms
  by (auto simp: react_iteration_def Let_def
      split: prod.splits chat_outcome.splits list.splits if_splits option.splits)

lemma react_iteration_success:
  assumes "react_iteration r enf m t st = Continue st'"
    and "st_successful_tools st' \<noteq> []"
  shows "st_successful_tools st \<noteq> [] \<or>
     (\<exists>call_id payload. ToolMessage call_id payload \<in> set (st_messages st') \<and>
        \<not> looks_like_tool_error payload)"
proof -
  from react_iteration_Continue [OF assms(1)] obtain choice w tcs where
    st': "st' = exec_tool_calls r tcs
       (st\<lparr>st_world := w, st_choice := Some choice,
           st_messages := st_messages st @ [AssistantMessage (choice_message choice)]\<rparr>)"
    by blast
  from exec_tool_calls_success [OF assms(2) [unfolded st']] show ?thesis
    unfolding st' by simp
qed

lemma react_iteration_messages_mono:
  assumes "react_iteration r enf m t st = Continue st'"
  shows "set (st_messages st) \<subseteq> set (st_messages st')"
proof -
  from react_iteration_Continue [OF assms(1)] obtain choice w tcs where
    st': "st' = exec_tool_calls r tcs
       (st\<lparr>st_world := w, st_choice := Some choice,
           st_messages := st_messages st @ [AssistantMessage (choice_message choice)]\<rparr>)"
    by blast
  show ?thesis unfolding st'
    using exec_tool_calls_messages_mono [of "st\<lparr>st_world := w, st_choice := Some choice,
           st_messages := st_messages st @ [AssistantMessage (choice_message choice)]\<rparr>" r tcs]
    by auto
qed

lemma state_after_messages_mono:
  "state_after r enf m t k st = Some st' \<Longrightarrow> set (st_messages st) \<subseteq> set (st_messages st')"
proof (induction k arbitrary: st)
  case 0
  then show ?case by simp
next
  case (Suc k)
  from Suc.prems obtain st1 where
    it: "react_iteration r enf m t st = Continue st1" and after: "state_after r enf m t k st1 = Some st'"
    by (auto split: step.splits)
  from react_iteration_messages_mono [OF it] Suc.IH [OF after] show ?case by blast
qed

lemma state_after_success:
  "state_after r enf m t k st = Some st' \<Longrightarrow> st_successful_tools st' \<noteq> [] \<Longrightarrow>
   st_successful_tools st \<noteq> [] \<or>
   (\<exists>call_id payload. ToolMessage call_id payload \<in> set (st_messages st') \<and>
      \<not> looks_like_tool_error payload)"
proof (induction k arbitrary: st)
  case 0
  then show ?case by simp
next
  case (Suc k)
  from Suc.prems(1) obtain st1 where
    it: "react_iteration r enf m t st = Continue st1" and after: "state_after r enf m t k st1 = Some st'"
    by (auto split: step.splits)
  from Suc.IH [OF after Suc.prems(2)] show ?case
  proof
    assume "st_successful_tools st1 \<noteq> []"
    from react_iteration_success [OF it this] show ?thesis
    proof
      assume "st_successful_tools st \<noteq> []"
      then show ?thesis ..
    next
      assume "\<exists>call_id payload. ToolMessage call_id payload \<in> set (st_messages st1) \<and>
        \<not> looks_like_tool_error payload"
      with state_after_messages_mono [OF after] show ?thesis by blast
    qed
  next
    assume "\<exists>call_id payload. ToolMessage call_id payload \<in> set (st_messages st') \<and>
      \<not> looks_like_tool_error payload"
    then show ?thesis ..
  qed
qed

lemma execute_preflight_tools_ok:
  "item \<in> set (fst (execute_preflight_tools r names w)) \<Longrightarrow>
   pf_ok item = (\<not> looks_like_tool_error (pf_content item))"
  by (induction names arbitrary: w) (auto simp: Let_def case_prod_beta)

lemma execute_preflight_tools_names:
  "map pf_name (fst (execute_preflight_tools r names w)) = names"
  by (induction names arbitrary: w) (auto simp: Let_def case_prod_beta)

lemma initial_state_success:
  assumes "st_successful_tools (initial_state r enf message history w) \<noteq> []"
  shows "\<exists>item \<in> set (fst (execute_preflight_tools r (preflight_tools enf) w)).
     \<not> looks_like_tool_error (pf_content item)"
proof -
  from assms have "filter pf_ok (fst (execute_preflight_tools r (preflight_tools enf) w)) \<noteq> []"
    by (simp add: initial_state_def Let_def case_prod_beta)
  then obtain item where item: "item \<in> set (fst (execute_preflight_tools r (preflight_tools enf) w))"
    and "pf_ok item"
    by (auto simp: filter_empty_conv)
  with execute_preflight_tools_ok [OF item] have "\<not> looks_like_tool_error (pf_content item)"
    by simp
  with item show ?thesis by blast
qed

lemma initial_state_tools_used:
  "st_tools_used (initial_state r enf message history w) = preflight_tools enf"
  by (simp add: initial_state_def Let_def case_prod_beta execute_preflight_tools_names)

lemma initial_state_messages:
  "ToolMessage call_id payload \<notin> set (st_messages (initial_state r enf message history w))"
  by (auto simp: initial_state_def Let_def case_prod_beta)

text \<open>
  Claim C9. A tool result looks like an error exactly when its lowercased text contains
  \<^verbatim>\<open>"error"\<close> or \<^verbatim>\<open>'error'\<close>, or both \<^verbatim>\<open>tool '\<close> and \<^verbatim>\<open>failed\<close>; so does every payload with
  an \<^verbatim>\<open>"error"\<close> member. A tool call in the loop is counted as successful exactly when
  its result does not look like an error. Consequently, in a turn whose policy requires a
  tool and whose preflight results and tool messages all are such texts, a final answer of
  the model is replaced by the refusal.
\<close>

theorem error_payloads_count_as_failures:
  assumes "backend r \<noteq> ''anthropic''"
    and "requires_tool (enforcement_for r message)"
    and "turn_state_after r message history w k = Some st"
    and "chat_completions_create r (st_world st) (turn_request r message st) =
         (ChatCompletion (choice # others), w')"
    and "\<not> wants_tools choice"
    and "\<forall>item \<in> set (fst (execute_preflight_tools r
             (preflight_tools (enforcement_for r message)) w)). spec_failed (pf_content item)"
    and "\<forall>call_id payload. ToolMessage call_id payload \<in> set (st_messages st) \<longrightarrow> spec_failed payload"
  shows \<open>looks_like_tool_error result_text = spec_failed result_text \<and>
     looks_like_tool_error (pre @ ''"error"'' @ post) \<and>
     st_successful_tools (exec_tool_call r tc st0) =
       (if spec_failed (fst (router_execute_tool (polaris_tools r) (tc_name tc)
              (case tc_arguments tc of None \<Rightarrow> empty_dict r | Some a \<Rightarrow> a) (st_world st0)))
        then st_successful_tools st0 else st_successful_tools st0 @ [tc_name tc]) \<and>
     fst (route r message history session w) =
       Inr \<lparr>response = REFUSAL_TEXT, tools_used = st_tools_used st\<rparr>\<close>
proof -
  have counted: "st_successful_tools (exec_tool_call r tc st0) =
       (if spec_failed (fst (router_execute_tool (polaris_tools r) (tc_name tc)
              (case tc_arguments tc of None \<Rightarrow> empty_dict r | Some a \<Rightarrow> a) (st_world st0)))
        then st_successful_tools st0 else st_successful_tools st0 @ [tc_name tc])"
    using exec_tool_call_effect [of r tc st0] by (auto simp: looks_like_tool_error_spec)
  from assms(3) have after: "state_after r (enforcement_for r message)
          (active_model_for r (turn_tools r message)) (openai_tools_for (turn_tools r message)) k
          (initial_state r (enforcement_for r message) message history w) = Some st"
    by (auto simp: turn_state_after_def split: if_splits)
  have none: "st_successful_tools st = []"
  proof (rule ccontr)
    assume "st_successful_tools st \<noteq> []"
    from state_after_success [OF after this] show False
    proof
      assume "st_successful_tools (initial_state r (enforcement_for r message) message history w) \<noteq> []"
      from initial_state_success [OF this] assms(6) show False
        by (auto simp: looks_like_tool_error_spec)
    next
      assume "\<exists>call_id payload. ToolMessage call_id payload \<in> set (st_messages st) \<and>
        \<not> looks_like_tool_error payload"
      with assms(7) show False by (auto simp: looks_like_tool_error_spec)
    qed
  qed
  have "fst (route r message history session w) =
       Inr \<lparr>response = REFUSAL_TEXT, tools_used = st_tools_used st\<rparr>"
    using route_at_final_answer [OF assms(1,3,4,5)] assms(2) none by simp
  with counted looks_like_tool_error_spec error_field_looks_like_error show ?thesis by blast
qed

lemma react_iteration_Return:
  assumes "react_iteration r enf m t st = Return res w'"
  shows "tools_used res = st_tools_used st"
  using assms
  by (auto simp: react_iteration_def Let_def
      split: prod.splits chat_outcome.splits list.splits if_splits option.splits)

lemma react_iteration_Continue_length:
  assumes "react_iteration r enf m t st = Continue st'"
    and "\<forall>w request. calls_in (fst (chat_completions_create r w request)) \<le> b"
  shows "length (st_tools_used st') \<le> length (st_tools_used st) + b \<and> st_choice st' \<noteq> None"
proof -
  from react_iteration_Continue [OF assms(1)] obtain choice others w tcs where
    reply: "chat_completions_create r (st_world st)
       \<lparr>rq_model = m, rq_messages = st_messages st, rq_max_tokens = 4096, rq_tools = t\<rparr> =
       (ChatCompletion (choice # others), w)" and
    tcs: "tool_calls (choice_message choice) = Some tcs" and
    st': "st' = exec_tool_calls r tcs
       (st\<lparr>st_world := w, st_choice := Some choice,
           st_messages := st_messages st @ [AssistantMessage (choice_message choice)]\<rparr>)"
    by blast
  from assms(2) have "calls_in (fst (chat_completions_create r (st_world st)
       \<lparr>rq_model = m, rq_messages = st_messages st, rq_max_tokens = 4096, rq_tools = t\<rparr>)) \<le> b"
    by blast
  with reply tcs have "length tcs \<le> b" by (simp add: calls_in_def)
  moreover have "st_choice (exec_tool_calls r tcs s) = st_choice s" for s
  proof (induction tcs arbitrary: s)
    case Nil
    show ?case by simp
  next
    case (Cons tc tcs)
    from exec_tool_call_effect [of r tc s] have "st_choice (exec_tool_call r tc s) = st_choice s"
      by blast
    with Cons.IH [of "exec_tool_call r tc s"] show ?case by simp
  qed
  ultimately show ?thesis by (simp add: st' exec_tool_calls_tools_used)
qed

lemma react_loop_bound:
  assumes "\<forall>w request. calls_in (fst (chat_completions_create r w request)) \<le> b"
  shows "react_loop r enf m t n st = (Inr res, w') \<Longrightarrow>
     length (tools_used res) \<le> length (st_tools_used st) + b * n"
proof (induction n arbitrary: st)
  case 0
  then show ?case by (auto simp: exhausted_def split: option.splits)
next
  case (Suc n)
  show ?case
  proof (cases "react_iteration r enf m t st")
    case (Continue st1)
    with Suc.prems have "react_loop r enf m t n st1 = (Inr res, w')" by simp
    from Suc.IH [OF this] react_iteration_Continue_length [OF Continue assms]
    show ?thesis by simp
  next
    case (Return res1 w1)
    with Suc.prems have "res1 = res" by simp
    with react_iteration_Return [OF Return] show ?thesis by simp
  next
    case (Raise x w1)
    with Suc.prems show ?thesis by simp
  qed
qed

lemma exec_blocks_used:
  "length (fst (exec_blocks r bs (used, results, w))) = length used + tool_use_count bs"
  by (induction r bs "(used, results, w)" arbitrary: used results w rule: exec_blocks.induct)
    (auto simp: Let_def case_prod_beta)

lemma anthropic_iteration_Return:
  assumes "anthropic_iteration r sys t st = Return res w'"
  shows "tools_used res = an_tools_used st"
  using assms
  by (auto simp: anthropic_iteration_def Let_def case_prod_beta
      split: anthropic_outcome.splits if_splits)

lemma anthropic_iteration_Continue_length:
  assumes "anthropic_iteration r sys t st = Continue st'"
    and "\<forall>w request. tool_uses_in (fst (messages_create r w request)) \<le> b"
  shows "length (an_tools_used st') \<le> length (an_tools_used st) + b"
proof -
  let ?request = "\<lparr>ar_model = model r, ar_max_tokens = 4096, ar_system = sys, ar_tools = t,
              ar_messages = an_messages st\<rparr>"
  from assms(1) obtain resp where
    reply: "fst (messages_create r (an_world st) ?request) = AnthropicResponse resp" and
    st': "an_tools_used st' =
      fst (exec_blocks r (blocks resp)
             (an_tools_used st, [], snd (messages_create r (an_world st) ?request)))"
    by (auto simp: anthropic_iteration_def Let_def case_prod_beta
        split: anthropic_outcome.splits if_splits)
  from assms(2) have "tool_uses_in (fst (messages_create r (an_world st) ?request)) \<le> b"
    by blast
  with reply have "tool_use_count (blocks resp) \<le> b" by (simp add: tool_uses_in_def)
  with st' show ?thesis by (simp add: exec_blocks_used)
qed

lemma anthropic_loop_bound:
  assumes "\<forall>w request. tool_uses_in (fst (messages_create r w request)) \<le> b"
  shows "anthropic_loop r sys t n st = (Inr res, w') \<Longrightarrow>
     length (tools_used res) \<le> length (an_tools_used st) + b * n"
proof (induction n arbitrary: st)
  case 0
  then show ?case by (auto simp: anthropic_exhausted_def split: option.splits)
next
  case (Suc n)
  show ?case
  proof (cases "anthropic_iteration r sys t st")
    case (Continue st1)
    with Suc.prems have "anthropic_loop r sys t n st1 = (Inr res, w')" by simp
    from Suc.IH [OF this] anthropic_iteration_Continue_length [OF Continue assms]
    show ?thesis by simp
  next
    case (Return res1 w1)
    with Suc.prems have "res1 = res" by simp
    with anthropic_iteration_Return [OF Return] show ?thesis by simp
  next
    case (Raise x w1)
    with Suc.prems show ?thesis by simp
  qed
qed

lemma finish_turn_result:
  "finish_turn r message history session out = (Inr res, w') \<Longrightarrow> \<exists>w1. out = (Inr res, w1)"
  by (auto simp: finish_turn_def split: prod.splits sum.splits)

text \<open>
  Claim C4, as amended. When every reply of the model asks for at most \<open>b\<close> tool calls, the
  list \<^const>\<open>tools_used\<close> that \<^const>\<open>route\<close> returns has at most as many entries as the turn has
  preflight tools, plus \<open>b\<close> for each of the at most \<^const>\<open>max_iterations\<close> passes of the loop.
\<close>

theorem tools_used_bound:
  assumes "\<forall>w request. calls_in (fst (chat_completions_create r w request)) \<le> b"
    and "\<forall>w request. tool_uses_in (fst (messages_create r w request)) \<le> b"
    and "route r message history session w = (Inr res, w')"
  shows "length (tools_used res) \<le> preflight_count r message + b * nat (max_iterations r)"
proof (cases "backend r = ''anthropic''")
  case True
  show ?thesis
  proof (cases "allow_paid r")
    case False
    with True assms(3) show ?thesis by (auto simp: route_def)
  next
    case paid: True
    with True assms(3) have "finish_turn r message history session
        (route_anthropic r message history w) = (Inr res, w')"
      by (simp add: route_def)
    from finish_turn_result [OF this] obtain w1 where
      "route_anthropic r message history w = (Inr res, w1)" ..
    then show ?thesis
      unfolding route_anthropic_def Let_def
      by (drule_tac anthropic_loop_bound [OF assms(2)]) simp
  qed
next
  case False
  with assms(3) have "finish_turn r message history session
      (route_ollama r message history w) = (Inr res, w')"
    by (simp add: route_def)
  from finish_turn_result [OF this] obtain w1 where
    out: "route_ollama r message history w = (Inr res, w1)" ..
  show ?thesis
  proof (cases "requires_tool (enforcement_for r message) \<and> turn_tools r message = []")
    case True
    with out show ?thesis by (auto simp: route_ollama_turn)
  next
    case no_early: False
    with out have "react_loop r (enforcement_for r message)
          (active_model_for r (turn_tools r message)) (openai_tools_for (turn_tools r message))
          (nat (max_iterations r))
          (initial_state r (enforcement_for r message) message history w) = (Inr res, w1)"
      by (simp only: route_ollama_turn if_False)
    from react_loop_bound [OF assms(1) this] False show ?thesis
      by (simp add: initial_state_tools_used preflight_count_def)
  qed
qed

subsection \<open>Runs of the scripted router\<close>

lemmas scripted_defs =
  scripted_router_def hpc_tool_def hpc_skill_def final_answer_def tool_request_def job_call_def

lemmas turn_defs =
  enforcement_for_def turn_tools_def turn_request_def turn_state_after_def matched_skills_def
  resolve_skill_enforcement_def get_requires_tool_def get_strict_mode_def ordered_def
  get_tool_chain_def get_tools_required_def known_tools_def append_new_def get_required_def
  relevant_tools_def get_tools_by_name_def initial_state_def active_model_for_def
  openai_tools_for_def convert_tools_to_openai_format_def

lemma error_field_payload_failed: "spec_failed error_field_payload"
  by code_simp

lemma error_field_payload_error: "looks_like_tool_error error_field_payload"
  by code_simp

lemma ok_payload_ok: "\<not> looks_like_tool_error ok_payload"
  by code_simp

theorem route_refuses_without_successful_tool_witness:
  "backend hallucinating_router \<noteq> ''anthropic'' \<and>
   requires_tool (enforcement_for hallucinating_router ''job status'') \<and>
   turn_state_after hallucinating_router ''job status'' [] 0 0 = Some start_state \<and>
   chat_completions_create hallucinating_router (st_world start_state)
     (turn_request hallucinating_router ''job status'' start_state) =
     (ChatCompletion [final_answer ''hallucinated''], 1) \<and>
   \<not> wants_tools (final_answer ''hallucinated'') \<and>
   st_successful_tools start_state = [] \<and>
   fst (route hallucinating_router ''job status'' [] ''s1'' 0) =
     Inr \<lparr>response = REFUSAL_TEXT, tools_used = []\<rparr>"
proof -
  have h1: "backend hallucinating_router \<noteq> ''anthropic''"
    by (simp add: hallucinating_router_def scripted_defs)
  have h2: "requires_tool (enforcement_for hallucinating_router ''job status'')"
    by (simp add: hallucinating_router_def scripted_defs turn_defs)
  have h3: "turn_state_after hallucinating_router ''job status'' [] 0 0 = Some start_state"
    by (simp add: hallucinating_router_def scripted_defs turn_defs start_state_def)
  have h4: "chat_completions_create hallucinating_router (st_world start_state)
     (turn_request hallucinating_router ''job status'' start_state) =
     (ChatCompletion [final_answer ''hallucinated''], 1)"
    by (simp add: hallucinating_router_def scripted_router_def start_state_def)
  have h5: "\<not> wants_tools (final_answer ''hallucinated'')"
    by (simp add: wants_tools_def final_answer_def)
  have h6: "st_successful_tools start_state = []"
    by (simp add: start_state_def)
  from route_refuses_without_successful_tool [OF h1 h2 h3 h4 h5 h6, of "''s1''"]
  have "fst (route hallucinating_router ''job status'' [] ''s1'' 0) =
     Inr \<lparr>response = REFUSAL_TEXT, tools_used = []\<rparr>"
    by (simp add: start_state_def)
  with h1 h2 h3 h4 h5 h6 show ?thesis by blast
qed

lemma error_field_run:
  "turn_state_after error_field_router ''job status'' [] 0 1 = Some error_field_state"
  by (simp add: error_field_router_def scripted_defs turn_defs error_field_state_def
      react_iteration_def wants_tools_def exec_tool_call_def router_execute_tool_def
      execute_tool_def Let_def error_field_payload_error)


theorem error_payloads_count_as_failures_witness:
  "backend error_field_router \<noteq> ''anthropic'' \<and>
   requires_tool (enforcement_for error_field_router ''job status'') \<and>
   turn_state_after error_field_router ''job status'' [] 0 1 = Some error_field_state \<and>
   chat_completions_create error_field_router (st_world error_field_state)
     (turn_request error_field_router ''job status'' error_field_state) =
     (ChatCompletion [final_answer ''The job is running.''], 2) \<and>
   \<not> wants_tools (final_answer ''The job is running.'') \<and>
   fst (execute_preflight_tools error_field_router
          (preflight_tools (enforcement_for error_field_router ''job status'')) 0) = [] \<and>
   spec_failed error_field_payload \<and>
   looks_like_tool_error error_field_payload \<and>
   st_successful_tools (exec_tool_call error_field_router (job_call ''tc_1'') start_state) = [] \<and>
   fst (route error_field_router ''job status'' [] ''s1'' 0) =
     Inr \<lparr>response = REFUSAL_TEXT, tools_used = [''monitor_hpc_job'']\<rparr>"
proof -
  have h1: "backend error_field_router \<noteq> ''anthropic''"
    by (simp add: error_field_router_def scripted_defs)
  have h2: "requires_tool (enforcement_for error_field_router ''job status'')"
    by (simp add: error_field_router_def scripted_defs turn_defs)
  note h3 = error_field_run
  have h4: "chat_completions_create error_field_router (st_world error_field_state)
     (turn_request error_field_router ''job status'' error_field_state) =
     (ChatCompletion [final_answer ''The job is running.''], 2)"
    by (simp add: error_field_router_def scripted_router_def error_field_state_def)
  have h5: "\<not> wants_tools (final_answer ''The job is running.'')"
    by (simp add: wants_tools_def final_answer_def)
  have pre: "fst (execute_preflight_tools error_field_router
          (preflight_tools (enforcement_for error_field_router ''job status'')) 0) = []"
    by (simp add: error_field_router_def scripted_defs turn_defs)
  then have h6: "\<forall>item \<in> set (fst (execute_preflight_tools error_field_router
          (preflight_tools (enforcement_for error_field_router ''job status'')) 0)).
       spec_failed (pf_content item)"
    by simp
  have h7: "\<forall>call_id payload. ToolMessage call_id payload \<in> set (st_messages error_field_state) \<longrightarrow>
      spec_failed payload"
    by (simp add: error_field_state_def error_field_payload_failed)
  have run: "router_execute_tool (polaris_tools error_field_router) ''monitor_hpc_job'' ()
      (0::nat) = (error_field_payload, 0)"
    by (simp add: error_field_router_def scripted_router_def router_execute_tool_def
        execute_tool_def)
  from error_payloads_count_as_failures [OF h1 h2 h3 h4 h5 h6 h7,
      of error_field_payload "[]" "[]" "job_call ''tc_1''" start_state "''s1''"]
  have "looks_like_tool_error error_field_payload \<and>
     st_successful_tools (exec_tool_call error_field_router (job_call ''tc_1'') start_state) = [] \<and>
     fst (route error_field_router ''job status'' [] ''s1'' 0) =
       Inr \<lparr>response = REFUSAL_TEXT, tools_used = [''monitor_hpc_job'']\<rparr>"
    by (simp add: error_field_payload_failed job_call_def start_state_def run
        error_field_state_def)
  with h1 h2 h3 h4 h5 pre error_field_payload_failed show ?thesis by blast
qed

text \<open>
  Claim C4 as stated bounds the list by \<^const>\<open>max_iterations\<close> alone. With two passes allowed
  and a first reply that asks for three tool calls, three tools are recorded.
\<close>

theorem tools_used_within_max_iterations_counterexample:
  "max_iterations eager_router = 2 \<and>
   fst (route eager_router ''job status'' [] ''s1'' 0) =
     Inr \<lparr>response = ''Here are results.'',
          tools_used = [''monitor_hpc_job'', ''monitor_hpc_job'', ''monitor_hpc_job'']\<rparr> \<and>
   \<not> int (length [''monitor_hpc_job'', ''monitor_hpc_job'', ''monitor_hpc_job'']) \<le>
       max_iterations eager_router"
  by (simp add: eager_router_def scripted_defs turn_defs route_def finish_turn_def
      route_ollama_def react_iteration_def wants_tools_def exec_tool_call_def
      router_execute_tool_def execute_tool_def Let_def ok_payload_ok numeral_2_eq_2)

lemma eager_calls: "calls_in (fst (chat_completions_create eager_router w request)) \<le> 3"
  by (simp add: eager_router_def scripted_defs calls_in_def)

lemma eager_tool_uses: "tool_uses_in (fst (messages_create eager_router w request)) \<le> 3"
  by (simp add: eager_router_def scripted_defs tool_uses_in_def)

lemma eager_run:
  "route eager_router ''job status'' [] ''s1'' 0 =
     (Inr \<lparr>response = ''Here are results.'',
           tools_used = [''monitor_hpc_job'', ''monitor_hpc_job'', ''monitor_hpc_job'']\<rparr>, 2)"
  by (simp add: eager_router_def scripted_defs turn_defs route_def finish_turn_def
      route_ollama_def react_iteration_def wants_tools_def exec_tool_call_def
      router_execute_tool_def execute_tool_def Let_def ok_payload_ok numeral_2_eq_2)

theorem tools_used_bound_witness:
  "(\<forall>w request. calls_in (fst (chat_completions_create eager_router w request)) \<le> 3) \<and>
   (\<forall>w request. tool_uses_in (fst (messages_create eager_router w request)) \<le> 3) \<and>
   route eager_router ''job status'' [] ''s1'' 0 =
     (Inr \<lparr>response = ''Here are results.'',
           tools_used = [''monitor_hpc_job'', ''monitor_hpc_job'', ''monitor_hpc_job'']\<rparr>, 2) \<and>
   preflight_count eager_router ''job status'' = 0 \<and>
   length (tools_used \<lparr>response = ''Here are results.'',
           tools_used = [''monitor_hpc_job'', ''monitor_hpc_job'', ''monitor_hpc_job'']\<rparr>)
     \<le> preflight_count eager_router ''job status'' + 3 * nat (max_iterations eager_router)"
proof -
  have h1: "\<forall>w request. calls_in (fst (chat_completions_create eager_router w request)) \<le> 3"
    using eager_calls by blast
  have h2: "\<forall>w request. tool_uses_in (fst (messages_create eager_router w request)) \<le> 3"
    using eager_tool_uses by blast
  have pre: "preflight_count eager_router ''job status'' = 0"
    by (simp add: preflight_count_def eager_router_def scripted_defs turn_defs)
  from tools_used_bound [OF h1 h2 eager_run] h1 h2 eager_run pre show ?thesis by blast
qed

subsection \<open>The approval gate\<close>

text \<open>
  Claim C2. For a tool of risk level \<^const>\<open>AUTO\<close> the gate calls the execute function, once and
  at once, sends nothing, and returns approved with the function's result. For a tool of
  another level and no bot or no chat id it returns not approved with no result, calls
  nothing and sends nothing. A tool absent from the risk table has level \<^const>\<open>CONFIRM\<close>.
  Whatever the gate returns carries the tool's risk level.
\<close>

theorem execute_with_approval_cases:
  "(risk_of tool_name = AUTO \<longrightarrow>
      snd (execute_with_approval tool_name tool_args execute_fn tbot chat_id callback_id user) =
        [Executed tool_args] \<and>
      (\<forall>r. execute_fn tool_args = Inr r \<longrightarrow>
         fst (execute_with_approval tool_name tool_args execute_fn tbot chat_id callback_id user) =
           Inr \<lparr>approved = True, result = Some r, approval_level = ''AUTO''\<rparr>)) \<and>
   (risk_of tool_name \<noteq> AUTO \<and> (tbot = None \<or> chat_id = None) \<longrightarrow>
      execute_with_approval tool_name tool_args execute_fn tbot chat_id callback_id user =
        (Inr \<lparr>approved = False, result = None, approval_level = risk_value (risk_of tool_name)\<rparr>,
         [])) \<and>
   (TOOL_RISK_MAP tool_name = None \<longrightarrow> risk_of tool_name = CONFIRM) \<and>
   (\<forall>res. fst (execute_with_approval tool_name tool_args execute_fn tbot chat_id callback_id user) =
        Inr res \<longrightarrow> approval_level res = risk_value (risk_of tool_name))"
proof (intro conjI impI allI)
  assume auto: "risk_of tool_name = AUTO"
  then show "snd (execute_with_approval tool_name tool_args execute_fn tbot chat_id callback_id user) =
        [Executed tool_args]"
    by (simp add: execute_with_approval_def call_def split: sum.splits)
  fix r assume "execute_fn tool_args = Inr r"
  with auto show "fst (execute_with_approval tool_name tool_args execute_fn tbot chat_id
      callback_id user) = Inr \<lparr>approved = True, result = Some r, approval_level = ''AUTO''\<rparr>"
    by (simp add: execute_with_approval_def call_def)
next
  assume "risk_of tool_name \<noteq> AUTO \<and> (tbot = None \<or> chat_id = None)"
  then show "execute_with_approval tool_name tool_args execute_fn tbot chat_id callback_id user =
        (Inr \<lparr>approved = False, result = None, approval_level = risk_value (risk_of tool_name)\<rparr>,
         [])"
    by (auto simp: execute_with_approval_def Let_def split: option.splits)
next
  assume "TOOL_RISK_MAP tool_name = None"
  then show "risk_of tool_name = CONFIRM" by (simp add: risk_of_def)
next
  fix res
  assume "fst (execute_with_approval tool_name tool_args execute_fn tbot chat_id callback_id user) =
        Inr res"
  then show "approval_level res = risk_value (risk_of tool_name)"
    by (auto simp: execute_with_approval_def Let_def call_def
        split: if_splits option.splits prod.splits sum.splits bool.splits)
qed


theorem execute_with_approval_cases_witness:
  "risk_of ''arxiv_search'' = AUTO \<and>
   sync_executor ''MoS2'' = Inr ''executed with MoS2'' \<and>
   execute_with_approval ''arxiv_search'' ''MoS2'' sync_executor None None ''0f3a9c1b7d42'' Deny =
     (Inr \<lparr>approved = True, result = Some ''executed with MoS2'', approval_level = ''AUTO''\<rparr>,
      [Executed ''MoS2'']) \<and>
   risk_of ''download_pdf'' \<noteq> AUTO \<and>
   execute_with_approval ''download_pdf'' ''http://example.com'' sync_executor None None
       ''0f3a9c1b7d42'' Approve =
     (Inr \<lparr>approved = False, result = None, approval_level = ''CONFIRM''\<rparr>, []) \<and>
   TOOL_RISK_MAP ''totally_unknown_tool'' = None \<and>
   risk_of ''totally_unknown_tool'' = CONFIRM \<and>
   fst (execute_with_approval ''submit_physics_job'' ''test'' sync_executor (Some quiet_bot)
         (Some 12345) ''0f3a9c1b7d42'' Approve) =
     Inr \<lparr>approved = True, result = Some ''executed with test'', approval_level = ''CRITICAL''\<rparr> \<and>
   approval_level \<lparr>approved = True, result = Some ''executed with test'',
       approval_level = ''CRITICAL''\<rparr> = risk_value (risk_of ''submit_physics_job'')"
proof -
  have auto: "risk_of ''arxiv_search'' = AUTO"
    and confirm: "risk_of ''download_pdf'' = CONFIRM"
    and unknown: "TOOL_RISK_MAP ''totally_unknown_tool'' = None"
    and critical: "risk_of ''submit_physics_job'' = CRITICAL"
    by (simp_all add: risk_of_def TOOL_RISK_MAP_def)
  have run: "sync_executor ''MoS2'' = Inr ''executed with MoS2''"
    by (simp add: sync_executor_def)
  have approved: "fst (execute_with_approval ''submit_physics_job'' ''test'' sync_executor
         (Some quiet_bot) (Some 12345) ''0f3a9c1b7d42'' Approve) =
     Inr \<lparr>approved = True, result = Some ''executed with test'', approval_level = ''CRITICAL''\<rparr>"
    by (simp add: execute_with_approval_def critical request_approval_def quiet_bot_def
        call_def sync_executor_def)
  note a = execute_with_approval_cases [where tool_name = "''arxiv_search''"
      and tool_args = "''MoS2''" and execute_fn = sync_executor and tbot = None
      and chat_id = None and callback_id = "''0f3a9c1b7d42''" and user = Deny]
  note b = execute_with_approval_cases [where tool_name = "''download_pdf''"
      and tool_args = "''http://example.com''" and execute_fn = sync_executor and tbot = None
      and chat_id = None and callback_id = "''0f3a9c1b7d42''" and user = Approve]
  note c = execute_with_approval_cases [where tool_name = "''totally_unknown_tool''"
      and tool_args = "''x''" and execute_fn = sync_executor and tbot = None
      and chat_id = None and callback_id = "''0f3a9c1b7d42''" and user = Approve]
  note d = execute_with_approval_cases [where tool_name = "''submit_physics_job''"
      and tool_args = "''test''" and execute_fn = sync_executor and tbot = "Some quiet_bot"
      and chat_id = "Some 12345" and callback_id = "''0f3a9c1b7d42''" and user = Approve]
  from a auto run have
    "execute_with_approval ''arxiv_search'' ''MoS2'' sync_executor None None ''0f3a9c1b7d42'' Deny =
     (Inr \<lparr>approved = True, result = Some ''executed with MoS2'', approval_level = ''AUTO''\<rparr>,
      [Executed ''MoS2''])"
    by (simp add: prod_eq_iff)
  moreover from b confirm have
    "execute_with_approval ''download_pdf'' ''http://example.com'' sync_executor None None
       ''0f3a9c1b7d42'' Approve =
     (Inr \<lparr>approved = False, result = None, approval_level = ''CONFIRM''\<rparr>, [])"
    by simp
  moreover from c unknown have "risk_of ''totally_unknown_tool'' = CONFIRM" by blast
  moreover from d approved have
    "approval_level \<lparr>approved = True, result = Some ''executed with test'',
       approval_level = ''CRITICAL''\<rparr> = risk_value (risk_of ''submit_physics_job'')"
    by blast
  ultimately show ?thesis using auto confirm unknown run approved by simp
qed

subsection \<open>The ensemble voter\<close>

lemma length_inference_results:
  "length (inference_results config classify_func mail) = nat (n_inferences config)"
  by (simp add: inference_results_def)

lemma successful_labels: "v \<in> set (successful results) \<Longrightarrow> v = ''ACTION'' \<or> v = ''FYI''"
  by (induction results rule: successful.induct) (auto split: if_splits)

lemma successful_filter:
  "map Str (successful results) = filter (\<lambda>r. r = Str ''ACTION'' \<or> r = Str ''FYI'') results"
  by (induction results rule: successful.induct) auto

lemma map_of_counter_add:
  "map_of (counter_add x c) l = (if l = x then Some (count_of c x + 1) else map_of c l)"
  by (induction c) (auto simp: count_of_def)

lemma keys_counter_add: "fst ` set (counter_add x c) = insert x (fst ` set c)"
proof (induction c)
  case Nil
  show ?case by simp
next
  case (Cons p c)
  obtain y n where p: "p = (y, n)" by (cases p)
  show ?case
  proof (cases "x = y")
    case True
    with p show ?thesis by auto
  next
    case False
    with p Cons.IH show ?thesis by simp blast
  qed
qed

lemma distinct_counter_add: "distinct (map fst c) \<Longrightarrow> distinct (map fst (counter_add x c))"
proof (induction c)
  case Nil
  show ?case by simp
next
  case (Cons p c)
  obtain y n where p: "p = (y, n)" by (cases p)
  show ?case
  proof (cases "x = y")
    case True
    with Cons.prems p show ?thesis by simp
  next
    case False
    from Cons.prems p have "y \<notin> fst ` set c" and "distinct (map fst c)" by auto
    with False Cons.IH p show ?thesis by (simp add: keys_counter_add)
  qed
qed

lemma foldl_counter_add:
  "distinct (map fst c) \<Longrightarrow>
   distinct (map fst (foldl (\<lambda>c x. counter_add x c) c xs)) \<and>
   fst ` set (foldl (\<lambda>c x. counter_add x c) c xs) = fst ` set c \<union> set xs \<and>
   (\<forall>l. count_of (foldl (\<lambda>c x. counter_add x c) c xs) l = count_of c l + count_list xs l)"
proof (induction xs arbitrary: c)
  case Nil
  then show ?case by simp
next
  case (Cons x xs)
  have "count_of (counter_add x c) l = count_of c l + (if x = l then 1 else 0)" for l
    by (simp add: count_of_def map_of_counter_add)
  with Cons.IH [OF distinct_counter_add [OF Cons.prems], of x] show ?case
    by (auto simp: keys_counter_add)
qed

lemma Counter_counts:
  "distinct (map fst (Counter xs)) \<and> fst ` set (Counter xs) = set xs \<and>
   (\<forall>l. count_of (Counter xs) l = count_list xs l)"
  using foldl_counter_add [of "[]" xs] by (simp add: Counter_def count_of_def)

lemma Counter_entry: "(l, n) \<in> set (Counter xs) \<Longrightarrow> l \<in> set xs \<and> n = count_list xs l"
proof -
  assume entry: "(l, n) \<in> set (Counter xs)"
  from Counter_counts [of xs] have d: "distinct (map fst (Counter xs))"
    and k: "fst ` set (Counter xs) = set xs"
    and c: "count_of (Counter xs) l = count_list xs l" by auto
  from d entry have "map_of (Counter xs) l = Some n" by simp
  with c have "n = count_list xs l" by (simp add: count_of_def)
  moreover from entry k have "l \<in> set xs" by force
  ultimately show ?thesis by simp
qed

lemma foldl_max_first:
  fixes x :: "'a \<times> nat"
  shows "foldl (\<lambda>best y. if snd best < snd y then y else best) x xs \<in> set (x # xs) \<and>
   (\<forall>y \<in> set (x # xs). snd y \<le> snd (foldl (\<lambda>best y. if snd best < snd y then y else best) x xs))"
proof (induction xs arbitrary: x)
  case Nil
  show ?case by simp
next
  case (Cons z zs)
  from Cons.IH [of "if snd x < snd z then z else x"] show ?case
    by (auto split: if_splits)
qed

lemma most_common_1_max:
  "c \<noteq> [] \<Longrightarrow>
   \<exists>l n. most_common_1 c = [(l, n)] \<and> (l, n) \<in> set c \<and> (\<forall>y \<in> set c. snd y \<le> n)"
proof (cases c)
  case Nil
  assume "c \<noteq> []"
  with Nil show ?thesis by simp
next
  case (Cons x xs)
  obtain l n where best: "foldl (\<lambda>best y. if snd best < snd y then y else best) x xs = (l, n)"
    by (cases "foldl (\<lambda>best y. if snd best < snd y then y else best) x xs")
  with foldl_max_first [of x xs] Cons show ?thesis by auto
qed

lemma most_frequent:
  assumes "votes \<noteq> []"
  shows "\<exists>label top_count. most_common_1 (Counter votes) = [(label, top_count)] \<and> label \<in> set votes \<and>
     top_count = count_list votes label \<and> (\<forall>other. count_list votes other \<le> top_count)"
proof -
  from assms Counter_counts [of votes] have "Counter votes \<noteq> []" by auto
  from most_common_1_max [OF this] obtain label top_count where
    top: "most_common_1 (Counter votes) = [(label, top_count)]" and
    entry: "(label, top_count) \<in> set (Counter votes)" and
    maxi: "\<forall>y \<in> set (Counter votes). snd y \<le> top_count" by blast
  have "count_list votes other \<le> top_count" for other
  proof (cases "other \<in> set votes")
    case True
    with Counter_counts [of votes] obtain m where m: "(other, m) \<in> set (Counter votes)" by force
    from Counter_entry [OF m] maxi m show ?thesis by force
  next
    case False
    then show ?thesis by (simp add: count_list_0_iff)
  qed
  with top Counter_entry [OF entry] show ?thesis by blast
qed

lemma to_double_one: "to_double 1 = 1"
  by code_simp

lemma truediv_same: "0 < n \<Longrightarrow> truediv n n = 1"
  by (simp add: truediv_def to_double_one)

lemma count_list_all_same: "\<forall>v \<in> set votes. v = label \<Longrightarrow> count_list votes label = length votes"
  by (induction votes) auto

lemma vote_classify_majority:
  assumes "\<not> int (length (votes_of config classify_func mail)) < min_quorum config"
    and "most_common_1 (Counter (votes_of config classify_func mail)) = [(label, top_count)]"
  shows "vote_classify config classify_func mail =
     Inr (if truediv top_count (length (votes_of config classify_func mail)) < confidence_threshold config
          then fallback_category config else label,
          truediv top_count (length (votes_of config classify_func mail)),
          votes_of config classify_func mail)"
  using assms by (simp add: vote_classify_def votes_of_def Let_def)


text \<open>
  The results of \<^const>\<open>vote_classify\<close>. It runs \<^const>\<open>n_inferences\<close> inferences and keeps as
  successes the results that are the text \<^verbatim>\<open>ACTION\<close> or \<^verbatim>\<open>FYI\<close>. With fewer successes than
  \<^const>\<open>min_quorum\<close> it returns the fallback category (\<^verbatim>\<open>UNCERTAIN\<close> in the configuration),
  confidence 0 and the successes. Otherwise, when there is a success, it takes a label of
  greatest count, with confidence the count divided by the number of successes, and
  returns the fallback category when the confidence is below the threshold, else the
  label. Successes that all agree give confidence exactly 1, and the agreed label unless
  the threshold is above 1.
\<close>

theorem vote_classify_cases:
  "length (inference_results config classify_func mail) = nat (n_inferences config) \<and>
   map Str (votes_of config classify_func mail) =
     filter (\<lambda>r. r = Str ''ACTION'' \<or> r = Str ''FYI'')
       (inference_results config classify_func mail) \<and>
   (int (length (votes_of config classify_func mail)) < min_quorum config \<longrightarrow>
      vote_classify config classify_func mail =
        Inr (fallback_category config, 0, votes_of config classify_func mail)) \<and>
   (\<not> int (length (votes_of config classify_func mail)) < min_quorum config \<and>
    votes_of config classify_func mail \<noteq> [] \<longrightarrow>
      (\<exists>label top_count.
         label \<in> set (votes_of config classify_func mail) \<and>
         top_count = count_list (votes_of config classify_func mail) label \<and>
         (\<forall>other. count_list (votes_of config classify_func mail) other \<le> top_count) \<and>
         vote_classify config classify_func mail =
           Inr (if truediv top_count (length (votes_of config classify_func mail))
                   < confidence_threshold config
                then fallback_category config else label,
                truediv top_count (length (votes_of config classify_func mail)),
                votes_of config classify_func mail))) \<and>
   (\<not> int (length (votes_of config classify_func mail)) < min_quorum config \<and>
    votes_of config classify_func mail \<noteq> [] \<and>
    (\<forall>v \<in> set (votes_of config classify_func mail). v = agreed) \<longrightarrow>
      vote_classify config classify_func mail =
        Inr (if 1 < confidence_threshold config then fallback_category config else agreed,
             1, votes_of config classify_func mail))"
proof (intro conjI impI)
  let ?votes = "votes_of config classify_func mail"
  show "length (inference_results config classify_func mail) = nat (n_inferences config)"
    by (rule length_inference_results)
  show "map Str ?votes =
     filter (\<lambda>r. r = Str ''ACTION'' \<or> r = Str ''FYI'')
       (inference_results config classify_func mail)"
    by (simp add: votes_of_def successful_filter)
  {
    assume "int (length ?votes) < min_quorum config"
    then show "vote_classify config classify_func mail =
        Inr (fallback_category config, 0, ?votes)"
      by (simp add: vote_classify_def votes_of_def Let_def)
  }
  {
    assume met: "\<not> int (length ?votes) < min_quorum config \<and> ?votes \<noteq> []"
    then have "?votes \<noteq> []" by simp
    from most_frequent [OF this] obtain label top_count where
      top: "most_common_1 (Counter ?votes) = [(label, top_count)]" and
      rest: "label \<in> set ?votes" "top_count = count_list ?votes label"
        "\<forall>other. count_list ?votes other \<le> top_count"
      by blast
    from met have "\<not> int (length ?votes) < min_quorum config" by simp
    from vote_classify_majority [OF this top] rest
    show "\<exists>label top_count.
         label \<in> set ?votes \<and> top_count = count_list ?votes label \<and>
         (\<forall>other. count_list ?votes other \<le> top_count) \<and>
         vote_classify config classify_func mail =
           Inr (if truediv top_count (length ?votes) < confidence_threshold config
                then fallback_category config else label,
                truediv top_count (length ?votes), ?votes)"
      by blast
  }
  {
    assume same: "\<not> int (length ?votes) < min_quorum config \<and> ?votes \<noteq> [] \<and>
      (\<forall>v \<in> set ?votes. v = agreed)"
    then have nonempty: "?votes \<noteq> []" and agree: "\<forall>v \<in> set ?votes. v = agreed" by simp_all
    from most_frequent [OF nonempty] obtain label top_count where
      top: "most_common_1 (Counter ?votes) = [(label, top_count)]" and
      label: "label \<in> set ?votes" and top_count: "top_count = count_list ?votes label"
      by blast
    from label agree have "label = agreed" by blast
    with top_count count_list_all_same [OF agree] have "top_count = length ?votes" by simp
    moreover from nonempty have "0 < length ?votes" by simp
    ultimately have "truediv top_count (length ?votes) = 1" by (simp add: truediv_same)
    moreover from same have "\<not> int (length ?votes) < min_quorum config" by simp
    note vote_classify_majority [OF this top]
    ultimately show "vote_classify config classify_func mail =
        Inr (if 1 < confidence_threshold config then fallback_category config else agreed,
             1, ?votes)"
      using \<open>label = agreed\<close> by simp
  }
qed

text \<open>
  Claim C3. The claim gives \<^const>\<open>vote_classify\<close> a result for every classify function and
  input, as the docstring of the method does (\<^verbatim>\<open>Returns: (category, confidence, all_votes)\<close>).
  With a \<^const>\<open>min_quorum\<close> of 0 and a classify function that raises at every call there is no
  success, the quorum test passes, \<^verbatim>\<open>most_common(1)\<close> is empty, and indexing it raises
  \<^verbatim>\<open>IndexError\<close>: the call has no result. With the quorum of scenario S4 the same classify
  function takes the branch for too few votes, which returns the fallback category,
  confidence 0 and no votes.
\<close>

theorem vote_classify_raises_without_votes:
  "n_inferences no_quorum_config = 3 \<and> min_quorum no_quorum_config = 0 \<and>
   inference_results no_quorum_config failing_stub () =
     [Str ''ERROR: timeout'', Str ''ERROR: timeout'', Str ''ERROR: timeout''] \<and>
   votes_of no_quorum_config failing_stub () = [] \<and>
   vote_classify no_quorum_config failing_stub () =
     Inl (Exn IndexError ''list index out of range'') \<and>
   vote_classify s4_config failing_stub () = Inr (''UNCERTAIN'', 0, [])"
  by (simp add: vote_classify_def votes_of_def no_quorum_config_def s4_config_def failing_stub_def
      inference_results_def single_inference_def Counter_def upt_rec)

lemma s4_votes:
  "votes_of s4_config s4_stub () = [''ACTION'', ''FYI'', ''FYI'', ''ACTION'', ''ACTION'']"
  by (simp add: votes_of_def s4_config_def s4_stub_def inference_results_def
      single_inference_def upt_rec)

lemma s4_confidence: "truediv 3 5 = 5404319552844595 / 9007199254740992"
  by code_simp

lemma s4_below_threshold: "truediv 3 5 < to_double (7 / 10)"
  by code_simp


lemma threshold_below_one: "\<not> 1 < to_double (7 / 10)"
  by code_simp

lemma agreeing_votes:
  "votes_of s4_config agreeing_stub () = [''ACTION'', ''ACTION'', ''ACTION'', ''ACTION'', ''ACTION'']"
  by (simp add: votes_of_def s4_config_def agreeing_stub_def inference_results_def
      single_inference_def upt_rec)

lemma failing_votes: "votes_of s4_config failing_stub () = []"
  by (simp add: votes_of_def s4_config_def failing_stub_def inference_results_def
      single_inference_def upt_rec)

text \<open>
  Runs with the configuration of scenario S4 of the specification: no success, the votes
  of the scenario, and five votes that agree.
\<close>

theorem vote_classify_scenarios:
  "int (length (votes_of s4_config failing_stub ())) < min_quorum s4_config \<and>
   vote_classify s4_config failing_stub () = Inr (''UNCERTAIN'', 0, []) \<and>
   \<not> int (length (votes_of s4_config s4_stub ())) < min_quorum s4_config \<and>
   votes_of s4_config s4_stub () = [''ACTION'', ''FYI'', ''FYI'', ''ACTION'', ''ACTION''] \<and>
   vote_classify s4_config s4_stub () =
     Inr (''UNCERTAIN'', 5404319552844595 / 9007199254740992,
          [''ACTION'', ''FYI'', ''FYI'', ''ACTION'', ''ACTION'']) \<and>
   \<not> int (length (votes_of s4_config agreeing_stub ())) < min_quorum s4_config \<and>
   votes_of s4_config agreeing_stub () =
     [''ACTION'', ''ACTION'', ''ACTION'', ''ACTION'', ''ACTION''] \<and>
   vote_classify s4_config agreeing_stub () =
     Inr (''ACTION'', 1, [''ACTION'', ''ACTION'', ''ACTION'', ''ACTION'', ''ACTION''])"
proof -
  have quorum: "min_quorum s4_config = 3" and threshold: "confidence_threshold s4_config = to_double (7 / 10)"
    and fallback: "fallback_category s4_config = ''UNCERTAIN''"
    by (simp_all add: s4_config_def)
  have short: "int (length (votes_of s4_config failing_stub ())) < min_quorum s4_config"
    by (simp add: failing_votes quorum)
  with vote_classify_cases [of s4_config failing_stub "()"]
  have failed: "vote_classify s4_config failing_stub () = Inr (''UNCERTAIN'', 0, [])"
    by (simp add: failing_votes fallback)
  have met: "\<not> int (length (votes_of s4_config s4_stub ())) < min_quorum s4_config"
    by (simp add: s4_votes quorum)
  have nonempty: "votes_of s4_config s4_stub () \<noteq> []" by (simp add: s4_votes)
  from vote_classify_cases [of s4_config s4_stub "()"] met nonempty obtain label top_count where
    label: "label \<in> set (votes_of s4_config s4_stub ())" and
    top_count: "top_count = count_list (votes_of s4_config s4_stub ()) label" and
    most: "\<forall>other. count_list (votes_of s4_config s4_stub ()) other \<le> top_count" and
    voted: "vote_classify s4_config s4_stub () =
           Inr (if truediv top_count (length (votes_of s4_config s4_stub ()))
                   < confidence_threshold s4_config
                then fallback_category s4_config else label,
                truediv top_count (length (votes_of s4_config s4_stub ())),
                votes_of s4_config s4_stub ())"
    by blast
  from most have "count_list (votes_of s4_config s4_stub ()) ''ACTION'' \<le> top_count" by blast
  then have "3 \<le> top_count" by (simp add: s4_votes)
  with label top_count have three: "top_count = 3" by (auto simp: s4_votes)
  have five: "length (votes_of s4_config s4_stub ()) = 5" by (simp add: s4_votes)
  from voted have "vote_classify s4_config s4_stub () =
     Inr (if truediv 3 5 < confidence_threshold s4_config
          then fallback_category s4_config else label,
          truediv 3 5, votes_of s4_config s4_stub ())"
    unfolding three five .
  then have "vote_classify s4_config s4_stub () =
     Inr (fallback_category s4_config, truediv 3 5, votes_of s4_config s4_stub ())"
    by (simp only: threshold s4_below_threshold if_True)
  then have split: "vote_classify s4_config s4_stub () =
     Inr (''UNCERTAIN'', 5404319552844595 / 9007199254740992,
          [''ACTION'', ''FYI'', ''FYI'', ''ACTION'', ''ACTION''])"
    by (simp only: fallback s4_confidence s4_votes)
  have met': "\<not> int (length (votes_of s4_config agreeing_stub ())) < min_quorum s4_config"
    by (simp add: agreeing_votes quorum)
  have nonempty': "votes_of s4_config agreeing_stub () \<noteq> []"
    and same: "\<forall>v \<in> set (votes_of s4_config agreeing_stub ()). v = ''ACTION''"
    by (simp_all add: agreeing_votes)
  from vote_classify_cases [of s4_config agreeing_stub "()" "''ACTION''"] met' nonempty' same
  have "vote_classify s4_config agreeing_stub () =
        Inr (if 1 < confidence_threshold s4_config then fallback_category s4_config
             else ''ACTION'', 1, votes_of s4_config agreeing_stub ())"
    by blast
  then have agreed: "vote_classify s4_config agreeing_stub () =
     Inr (''ACTION'', 1, [''ACTION'', ''ACTION'', ''ACTION'', ''ACTION'', ''ACTION''])"
    by (simp add: threshold threshold_below_one agreeing_votes)
  from short failed met s4_votes split met' agreeing_votes agreed show ?thesis by simp
qed

subsection \<open>Embedder\<close>

lemma unpack_pack:
  "unpack_f (ucast w) (ucast (drop_bit 8 w)) (ucast (drop_bit 16 w)) (ucast (drop_bit 24 w)) = w"
proof (rule bit_word_eqI)
  fix n
  assume "n < LENGTH(32)"
  then consider "n < 8" | "8 \<le> n \<and> n < 16" | "16 \<le> n \<and> n < 24" | "24 \<le> n \<and> n < 32"
    by fastforce
  then show "bit (unpack_f (ucast w) (ucast (drop_bit 8 w)) (ucast (drop_bit 16 w))
      (ucast (drop_bit 24 w))) n = bit w n"
    by cases (auto simp add: unpack_f_def bit_simps)
qed

lemma unpack_all_to_bytes: "unpack_all (to_bytes v) = v"
  by (induction v) (simp_all add: to_bytes_def pack_f_def unpack_pack)

lemma length_to_bytes: "length (to_bytes v) = 4 * length v"
  by (induction v) (simp_all add: to_bytes_def pack_f_def)

lemma from_bytes_to_bytes: "from_bytes (to_bytes v) = Inr v"
  by (simp add: from_bytes_def length_to_bytes unpack_all_to_bytes)

text \<open>
  Claim C8. Packing a vector of finite float32 values and unpacking the bytes gives a
  vector of the same length whose components are the packed ones: no exception is raised,
  and each component is within \<open>10\<^sup>-\<^sup>5\<close> of (in fact equal to) the one packed.
\<close>

theorem from_bytes_round_trip:
  assumes "\<forall>x \<in> set v. is_finite x"
  shows "\<exists>v'. from_bytes (to_bytes v) = Inr v' \<and> length v' = length v \<and>
     (\<forall>i < length v. \<bar>valof (v' ! i) - valof (v ! i)\<bar> \<le> 1 / 100000 \<and> v' ! i = v ! i)"
  by (simp add: from_bytes_to_bytes)

theorem from_bytes_round_trip_witness:
  "list_all is_finite sample_vector \<and>
   to_bytes sample_vector =
     [0x00, 0x00, 0x80, 0x3F, 0x00, 0x00, 0x00, 0xBF, 0xCD, 0xCC, 0xCC, 0x3D] \<and>
   valof (sample_vector ! 1) = - 1 / 2 \<and>
   (\<exists>v'. from_bytes [0x00, 0x00, 0x80, 0x3F, 0x00, 0x00, 0x00, 0xBF, 0xCD, 0xCC, 0xCC, 0x3D] =
        Inr v' \<and> length v' = 3 \<and>
      (\<forall>i < 3. \<bar>valof (v' ! i) - valof (sample_vector ! i)\<bar> \<le> 1 / 100000 \<and>
         v' ! i = sample_vector ! i))"
proof -
  have finite: "\<forall>x \<in> set sample_vector. is_finite x"
    by (simp add: sample_vector_def is_finite_def exponent_def)
  have packed: "to_bytes sample_vector =
      [0x00, 0x00, 0x80, 0x3F, 0x00, 0x00, 0x00, 0xBF, 0xCD, 0xCC, 0xCC, 0x3D]"
    by (simp add: sample_vector_def to_bytes_def pack_f_def)
  have half: "valof (sample_vector ! 1) = - 1 / 2"
    by (simp add: sample_vector_def valof_def sign_bit_def exponent_def fraction_def)
  have three: "length sample_vector = 3" by (simp add: sample_vector_def)
  from finite have all: "list_all is_finite sample_vector" by (simp only: list_all_iff)
  from from_bytes_round_trip [OF finite] show ?thesis
    unfolding packed three using all packed half by blast
qed

subsection \<open>Memory\<close>

lemma slice_to_take: "0 \<le> k \<Longrightarrow> slice_to xs k = take (nat k) xs"
  by (simp add: slice_to_def)

lemma mset_sort_reverse: "mset (sort_reverse key xs) = mset xs"
  by (simp add: sort_reverse_def)

lemma sorted_sort_reverse: "sorted (rev (map key (sort_reverse key xs)))"
  by (simp add: sort_reverse_def rev_map)

lemma sort_reverse_stable:
  "filter (\<lambda>x. key x = k) (sort_reverse key xs) = filter (\<lambda>x. key x = k) xs"
proof -
  have "filter (\<lambda>x. key x = k) (sort_reverse key xs) =
      rev (filter (\<lambda>x. key x = k) (sort_key key (rev xs)))"
    by (simp add: sort_reverse_def rev_filter)
  also have "\<dots> = rev (filter (\<lambda>x. key x = k) (rev xs))"
    by (simp only: sort_key_stable)
  also have "\<dots> = filter (\<lambda>x. key x = k) xs"
    by (simp add: rev_filter)
  finally show ?thesis .
qed

lemma scan_Inr:
  "scan embedding candidate rows acc = Inr out \<Longrightarrow>
   \<exists>new. out = acc @ new \<and>
     map Inr new = List.map_filter (\<lambda>row. map_option (candidate row) (embedding row)) rows"
proof (induction rows arbitrary: acc)
  case Nil
  then show ?case by (simp add: map_filter_simps)
next
  case (Cons row rows)
  show ?case
  proof (cases "embedding row")
    case None
    with Cons.prems have "scan embedding candidate rows acc = Inr out" by simp
    from Cons.IH [OF this] None show ?thesis by (simp add: map_filter_simps)
  next
    case (Some blob)
    show ?thesis
    proof (cases "candidate row blob")
      case (Inl err)
      with Some Cons.prems show ?thesis by simp
    next
      case (Inr h)
      with Some Cons.prems have "scan embedding candidate rows (acc @ [h]) = Inr out" by simp
      from Cons.IH [OF this] obtain new where
        "out = (acc @ [h]) @ new" and
        "map Inr new = List.map_filter (\<lambda>row. map_option (candidate row) (embedding row)) rows"
        by blast
      with Some Inr have "out = acc @ (h # new) \<and>
          map Inr (h # new) =
            List.map_filter (\<lambda>row. map_option (candidate row) (embedding row)) (row # rows)"
        by (simp add: map_filter_simps)
      then show ?thesis by blast
    qed
  qed
qed

lemma all_candidates_Inr:
  assumes "all_candidates m query_vec = Inr cands"
  shows "map Inr cands =
     List.map_filter
       (\<lambda>row. map_option (conversation_candidate (embedder m) query_vec row) (conv_embedding row))
       (conversations m) @
     List.map_filter
       (\<lambda>row. map_option (knowledge_candidate (embedder m) query_vec row) (know_embedding row))
       (knowledge m)"
proof -
  from assms obtain cs where
    cs: "scan conv_embedding (conversation_candidate (embedder m) query_vec) (conversations m) [] =
      Inr cs" and
    ks: "scan know_embedding (knowledge_candidate (embedder m) query_vec) (knowledge m) cs =
      Inr cands"
    by (auto simp add: all_candidates_def split: sum.splits)
  from scan_Inr [OF cs] scan_Inr [OF ks] show ?thesis by auto
qed

text \<open>
  Claim C6, as amended. When the query has an embedding, no stored embedding fails to unpack
  or to compare, and \<open>top_k\<close> is not negative, \<^const>\<open>search_memory\<close> returns the first
  \<open>top_k\<close> entries of a ranking of the candidates. The candidates are the hits of all rows
  that have an embedding, conversation rows before knowledge rows, each table in the order
  of its scan. The ranking holds every candidate once, its scores never increase, and
  candidates of equal score keep the order they have among the candidates: the row scanned
  first wins a tie.
\<close>

theorem semantic_search_ranking:
  assumes "embed (embedder m) query = Some query_vec"
    and "all_candidates m query_vec = Inr cands"
    and "0 \<le> top_k"
  shows "\<exists>ranked.
     search_memory m query top_k = Inr (take (nat top_k) ranked) \<and>
     mset ranked = mset cands \<and>
     sorted (rev (map score ranked)) \<and>
     (\<forall>s. filter (\<lambda>h. score h = s) ranked = filter (\<lambda>h. score h = s) cands) \<and>
     map Inr cands =
       List.map_filter
         (\<lambda>row. map_option (conversation_candidate (embedder m) query_vec row) (conv_embedding row))
         (conversations m) @
       List.map_filter
         (\<lambda>row. map_option (knowledge_candidate (embedder m) query_vec row) (know_embedding row))
         (knowledge m)"
proof (intro exI conjI allI)
  let ?ranked = "sort_reverse score cands"
  from assms show "search_memory m query top_k = Inr (take (nat top_k) ?ranked)"
    by (simp add: search_memory_def semantic_search_def slice_to_take)
  show "mset ?ranked = mset cands"
    by (rule mset_sort_reverse)
  show "sorted (rev (map score ?ranked))"
    by (rule sorted_sort_reverse)
  show "filter (\<lambda>h. score h = s) ?ranked = filter (\<lambda>h. score h = s) cands" for s
    by (rule sort_reverse_stable)
  from assms(2) show "map Inr cands =
       List.map_filter
         (\<lambda>row. map_option (conversation_candidate (embedder m) query_vec row) (conv_embedding row))
         (conversations m) @
       List.map_filter
         (\<lambda>row. map_option (knowledge_candidate (embedder m) query_vec row) (know_embedding row))
         (knowledge m)"
    by (rule all_candidates_Inr)
qed

lemmas memory_defs =
  search_memory_def semantic_search_def all_candidates_def conversation_candidate_def
  knowledge_candidate_def similarity_def from_bytes_to_bytes unit_embedder_def slice_to_def
  sort_reverse_def e1_def e2_def

text \<open>
  Claim C6 as stated breaks ties by descending id. Three rows have the same similarity to
  the query: conversation 1, conversation 2 and knowledge row 3. The search for one hit
  returns conversation 1, the row with the least id.
\<close>

theorem ties_by_descending_id_counterexample:
  "embed (embedder tie_memory) ''turn'' = Some e1 \<and>
   map_sum id (map (\<lambda>h. (source_table h, hit_id h, score h))) (all_candidates tie_memory e1) =
     Inr [(''conversation'', 1, 1), (''conversation'', 2, 1), (''knowledge'', 3, 1)] \<and>
   search_memory tie_memory ''turn'' 1 =
     Inr [\<lparr>source_table = ''conversation'', hit_id = 1, hit_content = ''older turn'',
           hit_category = None, score = 1\<rparr>]"
  by (simp add: tie_memory_def memory_defs)

theorem semantic_search_ranking_witness:
  "embed (embedder mixed_memory) ''MoS2'' = Some e1 \<and>
   all_candidates mixed_memory e1 =
     Inr [\<lparr>source_table = ''conversation'', hit_id = 1, hit_content = ''gym at six'',
           hit_category = None, score = 0\<rparr>,
          \<lparr>source_table = ''conversation'', hit_id = 2, hit_content = ''bandgap of MoS2'',
           hit_category = None, score = 1\<rparr>,
          \<lparr>source_table = ''knowledge'', hit_id = 1, hit_content = ''MoS2: 1.8 eV'',
           hit_category = Some ''research'', score = 1\<rparr>] \<and>
   (0::int) \<le> 2 \<and>
   search_memory mixed_memory ''MoS2'' 2 =
     Inr [\<lparr>source_table = ''conversation'', hit_id = 2, hit_content = ''bandgap of MoS2'',
           hit_category = None, score = 1\<rparr>,
          \<lparr>source_table = ''knowledge'', hit_id = 1, hit_content = ''MoS2: 1.8 eV'',
           hit_category = Some ''research'', score = 1\<rparr>] \<and>
   (\<exists>ranked. search_memory mixed_memory ''MoS2'' 2 = Inr (take 2 ranked) \<and>
      map hit_id ranked = [2, 1, 1] \<and> map score ranked = [1, 1, 0])"
proof -
  let ?gym = "\<lparr>source_table = ''conversation'', hit_id = 1, hit_content = ''gym at six'',
      hit_category = None, score = 0::int\<rparr>"
  let ?gap = "\<lparr>source_table = ''conversation'', hit_id = 2, hit_content = ''bandgap of MoS2'',
      hit_category = None, score = 1::int\<rparr>"
  let ?note = "\<lparr>source_table = ''knowledge'', hit_id = 1, hit_content = ''MoS2: 1.8 eV'',
      hit_category = Some ''research'', score = 1::int\<rparr>"
  have h1: "embed (embedder mixed_memory) ''MoS2'' = Some e1"
    by (simp add: mixed_memory_def unit_embedder_def)
  have h2: "all_candidates mixed_memory e1 = Inr [?gym, ?gap, ?note]"
    by (simp add: mixed_memory_def memory_defs)
  have h3: "(0::int) \<le> 2" by simp
  have run: "search_memory mixed_memory ''MoS2'' 2 = Inr [?gap, ?note]"
    by (simp add: mixed_memory_def memory_defs)
  from semantic_search_ranking [OF h1 h2 h3] obtain ranked where
    top: "search_memory mixed_memory ''MoS2'' 2 = Inr (take (nat 2) ranked)" and
    all: "mset ranked = mset [?gym, ?gap, ?note]" and
    ties: "\<forall>s. filter (\<lambda>h. score h = s) ranked = filter (\<lambda>h. score h = s) [?gym, ?gap, ?note]"
    by blast
  from all have len: "length ranked = 3" by (metis length_Cons list.size(3) numeral_3_eq_3 size_mset)
  from top run have "take 2 ranked = [?gap, ?note]" by simp
  with len obtain z where shape: "ranked = [?gap, ?note, z]"
    by (cases ranked; cases "tl ranked"; cases "tl (tl ranked)"; cases "tl (tl (tl ranked))") auto
  from ties have "filter (\<lambda>h. score h = 0) ranked = [?gym]" by simp
  with shape have "z = ?gym" by (simp split: if_splits)
  with shape have "map hit_id ranked = [2, 1, 1] \<and> map score ranked = [1, 1, 0]" by simp
  with top h1 h2 h3 run show ?thesis by auto
qed

lemma length_take_le: "length (take n xs) \<le> n"
  by simp

lemma sql_limit_take: "0 \<le> n \<Longrightarrow> sql_limit rows n = take (nat n) rows"
  by (simp add: sql_limit_def)

lemma keyword_search_split:
  assumes "0 \<le> top_k"
  shows "keyword_search m query top_k =
     map conversation_hit (take (nat top_k) (matching_conversations m query)) @
     map knowledge_hit
       (take (nat top_k - length (take (nat top_k) (matching_conversations m query)))
          (matching_knowledge m query))"
proof -
  let ?cs = "take (nat top_k) (matching_conversations m query)"
  have len: "int (length ?cs) \<le> top_k" using assms by simp
  show ?thesis
  proof (cases "0 < top_k - int (length ?cs)")
    case True
    then have "nat (top_k - int (length ?cs)) = nat top_k - length ?cs" by linarith
    with True assms show ?thesis
      by (simp add: keyword_search_def Let_def sql_limit_take del: length_take)
  next
    case False
    with len have "nat top_k - length ?cs = 0" by linarith
    with False assms show ?thesis
      by (simp add: keyword_search_def Let_def sql_limit_take del: length_take)
  qed
qed

lemma sorted_order_by_id_desc: "sorted (rev (map row_id (order_by_id_desc row_id rows)))"
  by (simp add: order_by_id_desc_def rev_map)

lemma mset_order_by_id_desc: "mset (order_by_id_desc row_id rows) = mset rows"
  by (simp add: order_by_id_desc_def)

text \<open>
  Claim C10. When the query has no embedding and \<open>top_k\<close> is a count, \<^const>\<open>search_memory\<close>
  returns the keyword hits: the first \<open>top_k\<close> of the conversation rows whose content is
  like the query, newest (greatest id) first, followed by knowledge hits for the slots that
  remain, at most \<open>top_k\<close> hits in all. When \<open>top_k\<close> or more conversation rows match, the
  result holds conversation hits only, whatever the knowledge table holds.
\<close>

theorem keyword_search_order:
  assumes "embed (embedder m) query = None" and "0 \<le> top_k"
  shows "search_memory m query top_k =
       Inr (map conversation_hit (take (nat top_k) (matching_conversations m query)) @
            map knowledge_hit
              (take (nat top_k - length (take (nat top_k) (matching_conversations m query)))
                 (matching_knowledge m query))) \<and>
     (\<exists>hits. search_memory m query top_k = Inr hits \<and> length hits \<le> nat top_k) \<and>
     sorted (rev (map conv_id (matching_conversations m query))) \<and>
     mset (matching_conversations m query) =
       mset (filter (\<lambda>row. like m (conv_content row) (''%'' @ query @ ''%'')) (conversations m)) \<and>
     (nat top_k \<le> length (matching_conversations m query) \<longrightarrow>
        search_memory m query top_k =
          Inr (map conversation_hit (take (nat top_k) (matching_conversations m query))))"
proof -
  let ?cs = "take (nat top_k) (matching_conversations m query)"
  let ?ks = "take (nat top_k - length ?cs) (matching_knowledge m query)"
  from assms have split: "search_memory m query top_k =
      Inr (map conversation_hit ?cs @ map knowledge_hit ?ks)"
    by (simp only: search_memory_def option.case keyword_search_split)
  have a: "length ?cs \<le> nat top_k" by (rule length_take_le)
  have b: "length ?ks \<le> nat top_k - length ?cs" by (rule length_take_le)
  have "length (map conversation_hit ?cs @ map knowledge_hit ?ks :: 'b hit list) =
      length ?cs + length ?ks"
    by (simp only: length_append length_map)
  with a b have "length (map conversation_hit ?cs @ map knowledge_hit ?ks :: 'b hit list) \<le>
      nat top_k"
    by linarith
  with split have bound: "\<exists>hits. search_memory m query top_k = Inr hits \<and> length hits \<le> nat top_k"
    by blast
  have newest: "sorted (rev (map conv_id (matching_conversations m query)))"
    unfolding matching_conversations_def by (rule sorted_order_by_id_desc)
  have all: "mset (matching_conversations m query) =
       mset (filter (\<lambda>row. like m (conv_content row) (''%'' @ query @ ''%'')) (conversations m))"
    unfolding matching_conversations_def by (rule mset_order_by_id_desc)
  have full: "search_memory m query top_k = Inr (map conversation_hit ?cs)"
    if "nat top_k \<le> length (matching_conversations m query)"
  proof -
    from that have "length ?cs = nat top_k" by simp
    then have "?ks = []" by (simp del: length_take)
    with split show ?thesis by simp
  qed
  from split bound newest all full show ?thesis by blast
qed

lemma like_dft:
  "contains_like ''DFT calculation for MoS2'' ''%dft%''"
  "\<not> contains_like ''Hello world'' ''%dft%''"
  "contains_like ''rerun the dft job'' ''%dft%''"
  "contains_like ''DFT converged'' ''%dft%''"
  "contains_like ''How to run VASP DFT'' ''%dft%''"
  by code_simp+

lemmas keyword_defs =
  search_memory_def keyword_search_def matching_conversations_def matching_knowledge_def
  order_by_id_desc_def sql_limit_def conversation_hit_def knowledge_hit_def unit_embedder_def
  like_dft

theorem keyword_search_order_witness:
  "embed (embedder dft_memory) ''dft'' = None \<and> (0::int) \<le> 2 \<and>
   map conv_id (matching_conversations dft_memory ''dft'') = [4, 3, 1] \<and>
   map know_id (matching_knowledge dft_memory ''dft'') = [1] \<and>
   nat 2 \<le> length (matching_conversations dft_memory ''dft'') \<and>
   search_memory dft_memory ''dft'' 2 =
     Inr [\<lparr>source_table = ''conversation'', hit_id = 4, hit_content = ''DFT converged'',
           hit_category = None, score = 0\<rparr>,
          \<lparr>source_table = ''conversation'', hit_id = 3, hit_content = ''rerun the dft job'',
           hit_category = None, score = 0\<rparr>] \<and>
   map_sum id (map (\<lambda>h. (source_table h, hit_id h))) (search_memory dft_memory ''dft'' 5) =
     Inr [(''conversation'', 4), (''conversation'', 3), (''conversation'', 1), (''knowledge'', 1)]"
proof -
  have h1: "embed (embedder dft_memory) ''dft'' = None"
    by (simp add: dft_memory_def unit_embedder_def)
  have h2: "(0::int) \<le> 2" and h5: "(0::int) \<le> 5" by simp_all
  have cs: "matching_conversations dft_memory ''dft'' =
      [\<lparr>conv_id = 4, conv_content = ''DFT converged'', conv_embedding = None\<rparr>,
       \<lparr>conv_id = 3, conv_content = ''rerun the dft job'', conv_embedding = None\<rparr>,
       \<lparr>conv_id = 1, conv_content = ''DFT calculation for MoS2'', conv_embedding = None\<rparr>]"
    by (simp add: dft_memory_def keyword_defs)
  have ks: "matching_knowledge dft_memory ''dft'' =
      [\<lparr>know_id = 1, know_title = ''VASP tutorial'', know_content = ''How to run VASP DFT'',
        know_category = ''research'', know_embedding = None\<rparr>]"
    by (simp add: dft_memory_def keyword_defs)
  have full: "nat 2 \<le> length (matching_conversations dft_memory ''dft'')"
    by (simp add: cs)
  from keyword_search_order [OF h1 h2] full
  have two: "search_memory dft_memory ''dft'' 2 =
      Inr (map conversation_hit (take (nat 2) (matching_conversations dft_memory ''dft'')))"
    by blast
  from keyword_search_order [OF h1 h5]
  have five: "search_memory dft_memory ''dft'' 5 =
      Inr (map conversation_hit (take (nat 5) (matching_conversations dft_memory ''dft'')) @
           map knowledge_hit
             (take (nat 5 - length (take (nat 5) (matching_conversations dft_memory ''dft'')))
                (matching_knowledge dft_memory ''dft'')))"
    by blast
  have n2: "nat 2 = Suc (Suc 0)" by simp
  show ?thesis
    unfolding two five
    using h1 full by (simp add: cs ks n2 conversation_hit_def knowledge_hit_def)
qed

end
